theory Spec2Isabelle
  imports Main "HOL-Library.Sublist"
begin

section \<open>Shopify Insights Fetcher: a shallow embedding of shopify\_insights\_fastapi.py\<close>

text \<open>
  The program fetches a storefront's homepage and its product feed, mines the HTML for
  signals and assembles a \<open>BrandContext\<close>. Its own logic is embedded function by
  function, under the names of the source. What the program obtains from its libraries
  is a parameter of the model: the outcome of \<open>requests.get\<close>, the tree that
  \<open>BeautifulSoup(html, 'html.parser')\<close> builds, the join computed by \<open>urljoin\<close>, the
  matches of the two \<open>re.findall\<close> scans, the iteration order of a Python \<open>set\<close> and
  pydantic's \<open>HttpUrl\<close> validation. Strings are lists of 8-bit characters: the model
  covers ASCII text, on which \<open>str.lower\<close>, \<open>str.strip\<close> and the regular expressions
  of the source behave as defined here.
\<close>

subsection \<open>Python strings\<close>

text \<open>\<open>pat in s\<close> on strings: \<open>pat\<close> occurs in \<open>s\<close> as a contiguous substring.\<close>

fun contains :: "string \<Rightarrow> string \<Rightarrow> bool" where
  "contains pat [] = (pat = [])"
| "contains pat (c # cs) = (prefix pat (c # cs) \<or> contains pat cs)"

text \<open>The lower-case form of a character: the 26 capital letters change.\<close>

definition lower_char :: "char \<Rightarrow> char" where
  "lower_char c =
     (case map_of (zip ''ABCDEFGHIJKLMNOPQRSTUVWXYZ'' ''abcdefghijklmnopqrstuvwxyz'') c of
        None \<Rightarrow> c
      | Some d \<Rightarrow> d)"

text \<open>\<open>s.lower()\<close>\<close>

definition lower :: "string \<Rightarrow> string" where
  "lower s = map lower_char s"

text \<open>The characters \<open>str.strip()\<close> removes and \<open>\s\<close> matches: tab, newline, vertical tab,
  form feed, carriage return, the four separators 0x1c to 0x1f, and the space.\<close>

definition is_space :: "char \<Rightarrow> bool" where
  "is_space c =
     (c \<in> set [CHR 0x09, CHR 0x0A, CHR 0x0B, CHR 0x0C, CHR 0x0D,
                CHR 0x1C, CHR 0x1D, CHR 0x1E, CHR 0x1F, CHR 0x20])"

text \<open>\<open>s.strip()\<close>\<close>

definition strip :: "string \<Rightarrow> string" where
  "strip s = rev (dropWhile is_space (rev (dropWhile is_space s)))"

text \<open>\<open>s.rstrip('/')\<close>\<close>

definition rstrip_slash :: "string \<Rightarrow> string" where
  "rstrip_slash s = rev (dropWhile (\<lambda>c. c = CHR ''/'') (rev s))"

text \<open>\<open>s.replace(old, new)\<close> for a non-empty \<open>old = c0 # old'\<close>: the occurrences are
  replaced from the left, without overlap.\<close>

fun replace_nonempty :: "char \<Rightarrow> string \<Rightarrow> string \<Rightarrow> string \<Rightarrow> string" where
  "replace_nonempty c0 old' new [] = []"
| "replace_nonempty c0 old' new (c # cs) =
     (if c = c0 \<and> prefix old' cs
      then new @ replace_nonempty c0 old' new (drop (length old') cs)
      else c # replace_nonempty c0 old' new cs)"

text \<open>\<open>s.replace(old, new)\<close>; with an empty \<open>old\<close> Python puts \<open>new\<close> before every
  character and at the end.\<close>

definition replace :: "string \<Rightarrow> string \<Rightarrow> string \<Rightarrow> string" where
  "replace old new s =
     (case old of
        [] \<Rightarrow> new @ concat (map (\<lambda>c. c # new) s)
      | c0 # old' \<Rightarrow> replace_nonempty c0 old' new s)"

text \<open>\<open>str(n)\<close> for an integer: the decimal digits, with a minus sign when negative.\<close>

fun digits_fuel :: "nat \<Rightarrow> nat \<Rightarrow> string" where
  "digits_fuel 0 n = []"
| "digits_fuel (Suc k) n =
     (if n < 10 then [''0123456789'' ! n]
      else digits_fuel k (n div 10) @ [''0123456789'' ! (n mod 10)])"

definition str_of_nat :: "nat \<Rightarrow> string" where
  "str_of_nat n = digits_fuel (Suc n) n"

definition str_of_int :: "int \<Rightarrow> string" where
  "str_of_int i = (if i < 0 then CHR ''-'' # str_of_nat (nat (- i)) else str_of_nat (nat i))"

subsection \<open>Exceptions\<close>

text \<open>The exceptions the program can raise or meet. \<open>HTTPException\<close> carries the
  status code and the detail; \<open>ValueError\<close> is what \<open>urljoin\<close> raises;
  \<open>JSONDecodeError\<close> (raised by \<open>r.json()\<close>) and pydantic's \<open>ValidationError\<close> are
  subclasses of \<open>ValueError\<close>.\<close>

datatype error =
    HTTPException int string
  | AttributeError
  | TypeError
  | ValueError
  | JSONDecodeError
  | ValidationError

text \<open>What \<open>except ValueError\<close> catches.\<close>

fun is_ValueError :: "error \<Rightarrow> bool" where
  "is_ValueError ValueError = True"
| "is_ValueError JSONDecodeError = True"
| "is_ValueError ValidationError = True"
| "is_ValueError _ = False"

subsection \<open>JSON values as Python objects\<close>

text \<open>What \<open>r.json()\<close> returns: \<open>None\<close>, a bool, an int, a float (mantissa and binary
  exponent), a str, a list or a dict (its items in order, the keys distinct).\<close>

datatype json =
    JNull
  | JBool bool
  | JInt int
  | JFloat int int
  | JString string
  | JArray "json list"
  | JObject "(string \<times> json) list"

text \<open>Truth value of a Python object, as \<open>or\<close> and \<open>if\<close> test it.\<close>

fun truthy :: "json \<Rightarrow> bool" where
  "truthy JNull = False"
| "truthy (JBool b) = b"
| "truthy (JInt i) = (i \<noteq> 0)"
| "truthy (JFloat m e) = (m \<noteq> 0)"
| "truthy (JString s) = (s \<noteq> [])"
| "truthy (JArray xs) = (xs \<noteq> [])"
| "truthy (JObject kvs) = (kvs \<noteq> [])"

text \<open>\<open>x.get(key)\<close>: only a dict has the method; a missing key gives \<open>None\<close>.\<close>

fun py_get :: "json \<Rightarrow> string \<Rightarrow> error + json" where
  "py_get (JObject kvs) k = Inr (case map_of kvs k of None \<Rightarrow> JNull | Some v \<Rightarrow> v)"
| "py_get _ k = Inl AttributeError"

text \<open>\<open>for p in x\<close>: a list yields its elements, a dict its keys, a str its characters;
  nothing else is iterable.\<close>

fun py_iter :: "json \<Rightarrow> error + json list" where
  "py_iter (JArray xs) = Inr xs"
| "py_iter (JObject kvs) = Inr (map (\<lambda>kv. JString (fst kv)) kvs)"
| "py_iter (JString s) = Inr (map (\<lambda>c. JString [c]) s)"
| "py_iter _ = Inl TypeError"

subsection \<open>The Fetcher (safe\_get)\<close>

text \<open>A \<open>requests.Response\<close>, as far as the program reads it: the status code, the body
  as text (\<open>r.text\<close>) and what \<open>r.json()\<close> gives (\<open>None\<close> when it raises
  \<open>JSONDecodeError\<close>).\<close>

record response =
  status_code :: int
  resp_text :: string
  resp_json :: "json option"

text \<open>\<open>requests.get\<close> either raises a \<open>RequestException\<close> (connection error, timeout,
  malformed URL) or returns a response.\<close>

datatype get_outcome = RequestException | Returned response

text \<open>
\<^verbatim>\<open>
def safe_get(url, timeout=10):
    try:
        r = requests.get(url, headers=headers, timeout=timeout)
        if r.status_code == 200:
            return r
        else:
            return None
    except requests.RequestException as e:
        return None
\<close>
  The callers test the result with \<open>if r\<close>; a response with status 200 is truthy, so
  the test separates \<open>None\<close> from a response.\<close>

definition safe_get :: "(string \<Rightarrow> get_outcome) \<Rightarrow> string \<Rightarrow> response option" where
  "safe_get get url =
     (case get url of
        RequestException \<Rightarrow> None
      | Returned r \<Rightarrow> if status_code r = 200 then Some r else None)"

subsection \<open>Data model\<close>

text \<open>
\<^verbatim>\<open>
class Product(BaseModel):
    id: Optional[int]
    title: Optional[str]
    handle: Optional[str]
    variants: Optional[List[Dict[str, Any]]]
    images: Optional[List[str]]
\<close>
  The field \<open>id\<close> is written \<open>id'\<close>.\<close>

record Product =
  id' :: "int option"
  title :: "string option"
  handle :: "string option"
  variants :: "(string \<times> json) list list option"
  images :: "string list option"

text \<open>Validation of the arguments of \<open>Product(...)\<close>. A value of the declared type (or
  \<open>None\<close>) is accepted as it is; any other value is reported as \<open>ValidationError\<close>.
  Pydantic's coercion of near misses (a numeric string for \<open>id\<close>, say) depends on its
  version and is not modelled: no result below evaluates the model on such a value.\<close>

fun opt_int :: "json \<Rightarrow> error + int option" where
  "opt_int JNull = Inr None"
| "opt_int (JInt i) = Inr (Some i)"
| "opt_int _ = Inl ValidationError"

fun opt_str :: "json \<Rightarrow> error + string option" where
  "opt_str JNull = Inr None"
| "opt_str (JString s) = Inr (Some s)"
| "opt_str _ = Inl ValidationError"

fun list_of_dicts :: "json list \<Rightarrow> error + (string \<times> json) list list" where
  "list_of_dicts [] = Inr []"
| "list_of_dicts (JObject kvs # xs) =
     (case list_of_dicts xs of Inl e \<Rightarrow> Inl e | Inr ds \<Rightarrow> Inr (kvs # ds))"
| "list_of_dicts (_ # xs) = Inl ValidationError"

fun opt_list_of_dicts :: "json \<Rightarrow> error + (string \<times> json) list list option" where
  "opt_list_of_dicts JNull = Inr None"
| "opt_list_of_dicts (JArray xs) =
     (case list_of_dicts xs of Inl e \<Rightarrow> Inl e | Inr ds \<Rightarrow> Inr (Some ds))"
| "opt_list_of_dicts _ = Inl ValidationError"

fun list_of_strs :: "json list \<Rightarrow> error + string list" where
  "list_of_strs [] = Inr []"
| "list_of_strs (JString s # xs) =
     (case list_of_strs xs of Inl e \<Rightarrow> Inl e | Inr ss \<Rightarrow> Inr (s # ss))"
| "list_of_strs (_ # xs) = Inl ValidationError"

text \<open>\<open>Product(id=.., title=.., handle=.., variants=.., images=..)\<close>, the last argument
  always a list.\<close>

definition Product_init :: "json \<Rightarrow> json \<Rightarrow> json \<Rightarrow> json \<Rightarrow> json list \<Rightarrow> error + Product" where
  "Product_init i t h v imgs =
     (case opt_int i of Inl e \<Rightarrow> Inl e | Inr i' \<Rightarrow>
      case opt_str t of Inl e \<Rightarrow> Inl e | Inr t' \<Rightarrow>
      case opt_str h of Inl e \<Rightarrow> Inl e | Inr h' \<Rightarrow>
      case opt_list_of_dicts v of Inl e \<Rightarrow> Inl e | Inr v' \<Rightarrow>
      case list_of_strs imgs of Inl e \<Rightarrow> Inl e | Inr imgs' \<Rightarrow>
        Inr \<lparr>id' = i', title = t', handle = h', variants = v', images = Some imgs'\<rparr>)"

subsection \<open>Catalog Normalizer (fetch\_products\_json)\<close>

text \<open>\<open>[img.get("src") for img in imgs]\<close>\<close>

fun image_srcs :: "json list \<Rightarrow> error + json list" where
  "image_srcs [] = Inr []"
| "image_srcs (img # imgs) =
     (case py_get img ''src'' of Inl e \<Rightarrow> Inl e | Inr s \<Rightarrow>
      case image_srcs imgs of Inl e \<Rightarrow> Inl e | Inr ss \<Rightarrow> Inr (s # ss))"

text \<open>The body of the loop over the feed's entries: the five arguments are evaluated in
  order, then \<open>Product\<close> validates them.
\<^verbatim>\<open>
prod = Product(
    id=p.get("id"),
    title=p.get("title"),
    handle=p.get("handle"),
    variants=p.get("variants"),
    images=[img.get("src") for img in p.get("images", [])] if p.get("images") else []
)
\<close>\<close>

definition product_of_entry :: "json \<Rightarrow> error + Product" where
  "product_of_entry p =
     (case py_get p ''id'' of Inl e \<Rightarrow> Inl e | Inr i \<Rightarrow>
      case py_get p ''title'' of Inl e \<Rightarrow> Inl e | Inr t \<Rightarrow>
      case py_get p ''handle'' of Inl e \<Rightarrow> Inl e | Inr h \<Rightarrow>
      case py_get p ''variants'' of Inl e \<Rightarrow> Inl e | Inr v \<Rightarrow>
      case py_get p ''images'' of Inl e \<Rightarrow> Inl e | Inr im \<Rightarrow>
      case (if truthy im
            then (case py_iter im of Inl e \<Rightarrow> Inl e | Inr xs \<Rightarrow> image_srcs xs)
            else Inr []) of
        Inl e \<Rightarrow> Inl e
      | Inr srcs \<Rightarrow> Product_init i t h v srcs)"

text \<open>\<open>for p in raw_products: ... products.append(prod)\<close>, inside the \<open>try\<close>: a
  \<open>ValueError\<close> ends the loop and leaves the products appended so far; any other
  exception leaves the function.\<close>

fun append_products :: "json list \<Rightarrow> Product list \<Rightarrow> error + Product list" where
  "append_products [] products = Inr products"
| "append_products (p # ps) products =
     (case product_of_entry p of
        Inl e \<Rightarrow> if is_ValueError e then Inr products else Inl e
      | Inr pr \<Rightarrow> append_products ps (products @ [pr]))"

text \<open>\<open>data.get("products") or data.get("items") or []\<close>\<close>

definition raw_products :: "json \<Rightarrow> error + json" where
  "raw_products data =
     (case py_get data ''products'' of Inl e \<Rightarrow> Inl e | Inr a \<Rightarrow>
      if truthy a then Inr a
      else case py_get data ''items'' of Inl e \<Rightarrow> Inl e | Inr b \<Rightarrow>
        if truthy b then Inr b else Inr (JArray []))"

text \<open>
\<^verbatim>\<open>
def fetch_products_json(base_url):
    products = []
    candidate = base_url.rstrip("/") + "/products.json"
    r = safe_get(candidate)
    if r:
        try:
            data = r.json()
            raw_products = data.get("products") or data.get("items") or []
            for p in raw_products:
                ...
        except ValueError:
            logger.debug("products.json returned non-json")
    else:
        logger.debug("/products.json not available or returned non-200")
    return products
\<close>
  The result is the list returned or the exception that leaves the function, with the
  URLs requested.\<close>

definition fetch_products_json ::
  "(string \<Rightarrow> get_outcome) \<Rightarrow> string \<Rightarrow> (error + Product list) \<times> string list" where
  "fetch_products_json get base_url =
     (let candidate = rstrip_slash base_url @ ''/products.json'' in
      ((case safe_get get candidate of
         None \<Rightarrow> Inr []
       | Some r \<Rightarrow>
           (case resp_json r of
              None \<Rightarrow> Inr []
            | Some data \<Rightarrow>
                (case raw_products data of
                   Inl e \<Rightarrow> Inl e
                 | Inr raw \<Rightarrow>
                     (case py_iter raw of
                        Inl e \<Rightarrow> Inl e
                      | Inr ps \<Rightarrow> append_products ps [])))),
       [candidate]))"

subsection \<open>Hero Matcher (hero\_product\_matches)\<close>

text \<open>A product-card candidate is a dict with the keys \<open>'href'\<close> and \<open>'text'\<close>, read
  with \<open>card.get\<close>; the field is \<open>None\<close> when the key is missing or holds \<open>None\<close>.\<close>

record card =
  href :: "string option"
  card_text :: "string option"

text \<open>\<open>x or ''\<close> for an optional string.\<close>

fun or_empty :: "string option \<Rightarrow> string" where
  "or_empty None = []"
| "or_empty (Some s) = s"

text \<open>The character class \<open>[^/?#]\<close>.\<close>

definition segment_char :: "char \<Rightarrow> bool" where
  "segment_char c = (c \<noteq> CHR ''/'' \<and> c \<noteq> CHR ''?'' \<and> c \<noteq> CHR ''#'')"

text \<open>\<open>re.search(r'/products/([^/?#]+)', href)\<close>, giving \<open>m.group(1)\<close>: the leftmost place
  where \<open>/products/\<close> is followed by a character of the class, and the longest run of such
  characters from there.\<close>

fun search_products :: "string \<Rightarrow> string option" where
  "search_products [] = None"
| "search_products (c # cs) =
     (if prefix ''/products/'' (c # cs) \<and> takeWhile segment_char (drop 10 (c # cs)) \<noteq> []
      then Some (takeWhile segment_char (drop 10 (c # cs)))
      else search_products cs)"

text \<open>\<open>{ (p.handle or '').lower(): p for p in products }\<close>: a later product replaces an
  earlier one under the same key.\<close>

fun handles_to_product :: "Product list \<Rightarrow> (string \<rightharpoonup> Product) \<Rightarrow> (string \<rightharpoonup> Product)" where
  "handles_to_product [] m = m"
| "handles_to_product (p # ps) m = handles_to_product ps (m(lower (or_empty (handle p)) \<mapsto> p))"

text \<open>
\<^verbatim>\<open>
for p in products:
    if p.title and p.title.lower() in text:
        heroes.append(p)
        break
\<close>\<close>

fun title_match :: "string \<Rightarrow> Product list \<Rightarrow> Product list" where
  "title_match txt [] = []"
| "title_match txt (p # ps) =
     (if or_empty (title p) \<noteq> [] \<and> contains (lower (or_empty (title p))) txt
      then [p] else title_match txt ps)"

text \<open>The body of the loop over the candidates: what one candidate appends to
  \<open>heroes\<close>.
\<^verbatim>\<open>
href = card.get('href') or ''
text = (card.get('text') or '').lower()
m = re.search(r'/products/([^/?#]+)', href)
handle = None
if m:
    handle = m.group(1).lower()
if handle and handle in handles_to_product:
    heroes.append(handles_to_product[handle])
    continue
for p in products: ...
\<close>\<close>

definition card_heroes :: "(string \<rightharpoonup> Product) \<Rightarrow> Product list \<Rightarrow> card \<Rightarrow> Product list" where
  "card_heroes h2p products c =
     (let txt = lower (or_empty (card_text c));
          hdl = map_option lower (search_products (or_empty (href c)))
      in case hdl of
           None \<Rightarrow> title_match txt products
         | Some h \<Rightarrow>
             (if h \<noteq> [] then
                (case h2p h of Some p \<Rightarrow> [p] | None \<Rightarrow> title_match txt products)
              else title_match txt products))"

text \<open>The list \<open>heroes\<close> after the loop over the candidates.\<close>

fun heroes_loop :: "(string \<rightharpoonup> Product) \<Rightarrow> Product list \<Rightarrow> card list \<Rightarrow> Product list \<Rightarrow> Product list" where
  "heroes_loop h2p products [] heroes = heroes"
| "heroes_loop h2p products (c # cs) heroes =
     heroes_loop h2p products cs (heroes @ card_heroes h2p products c)"

text \<open>\<open>h.handle or h.title or str(h.id)\<close>, where \<open>str(None)\<close> is \<open>'None'\<close>.\<close>

definition identity_key :: "Product \<Rightarrow> string" where
  "identity_key h =
     (if or_empty (handle h) \<noteq> [] then or_empty (handle h)
      else if or_empty (title h) \<noteq> [] then or_empty (title h)
      else (case id' h of None \<Rightarrow> ''None'' | Some i \<Rightarrow> str_of_int i))"

text \<open>
\<^verbatim>\<open>
unique = []
seen = set()
for h in heroes:
    key = h.handle or h.title or str(h.id)
    if key not in seen:
        unique.append(h)
        seen.add(key)
\<close>\<close>

fun unique_loop :: "Product list \<Rightarrow> Product list \<Rightarrow> string set \<Rightarrow> Product list" where
  "unique_loop [] unique seen = unique"
| "unique_loop (h # hs) unique seen =
     (if identity_key h \<notin> seen
      then unique_loop hs (unique @ [h]) (insert (identity_key h) seen)
      else unique_loop hs unique seen)"

text \<open>The matches before deduplication: \<open>heroes\<close> as the first loop leaves it.\<close>

definition hero_candidates :: "card list \<Rightarrow> Product list \<Rightarrow> Product list" where
  "hero_candidates product_cards products =
     heroes_loop (handles_to_product products Map.empty) products product_cards []"

text \<open>
\<^verbatim>\<open>
def hero_product_matches(product_cards, products, base_url):
    heroes = []
    if not products:
        return heroes
    handles_to_product = {...}
    for card in product_cards: ...
    ...
    return unique
\<close>\<close>

definition hero_product_matches :: "card list \<Rightarrow> Product list \<Rightarrow> string \<Rightarrow> Product list" where
  "hero_product_matches product_cards products base_url =
     (if products = [] then []
      else unique_loop (hero_candidates product_cards products) [] {})"

subsection \<open>The parsed document\<close>

text \<open>The tree \<open>BeautifulSoup\<close> builds: a text node (\<open>NavigableString\<close>) or a tag with
  its name, its attributes (a dict, the keys distinct) and its children. The document
  itself is the tag \<open>[document]\<close>. Comments and the contents of scripts are not text
  nodes of the model.\<close>

datatype node = NavigableString string | Tag string "(string \<times> string) list" "node list"

text \<open>Everything below a tag, in document order.\<close>

fun descendants :: "node \<Rightarrow> node list" where
  "descendants (NavigableString s) = []"
| "descendants (Tag n ats cs) = concat (map (\<lambda>c. c # descendants c) cs)"

fun is_tag :: "node \<Rightarrow> bool" where
  "is_tag (Tag n ats cs) = True"
| "is_tag (NavigableString s) = False"

fun is_named :: "string \<Rightarrow> node \<Rightarrow> bool" where
  "is_named n (Tag m ats cs) = (m = n)"
| "is_named n (NavigableString s) = False"

text \<open>\<open>tag.get(key)\<close>\<close>

fun attr :: "node \<Rightarrow> string \<Rightarrow> string option" where
  "attr (Tag n ats cs) k = map_of ats k"
| "attr (NavigableString s) k = None"

text \<open>\<open>soup.find_all(...)\<close> with a test on tags, and \<open>soup.find(...)\<close>, its first
  result.\<close>

definition find_all :: "(node \<Rightarrow> bool) \<Rightarrow> node \<Rightarrow> node list" where
  "find_all P t = filter (\<lambda>d. is_tag d \<and> P d) (descendants t)"

definition find_tag :: "(node \<Rightarrow> bool) \<Rightarrow> node \<Rightarrow> node option" where
  "find_tag P t = (case find_all P t of [] \<Rightarrow> None | d # ds \<Rightarrow> Some d)"

fun strings :: "node \<Rightarrow> string list" where
  "strings (NavigableString s) = [s]"
| "strings (Tag n ats cs) = concat (map strings cs)"

text \<open>\<open>tag.get_text(strip=True)\<close>: the text nodes below the tag, each stripped, the
  empty ones left out, joined without a separator.\<close>

definition get_text :: "node \<Rightarrow> string" where
  "get_text t = concat (filter (\<lambda>s. s \<noteq> []) (map strip (strings t)))"

text \<open>\<open>tag.string\<close>: the text of a tag whose only child is a text node, or a tag with
  that property.\<close>

fun dot_string :: "node \<Rightarrow> string option" where
  "dot_string (NavigableString s) = Some s"
| "dot_string (Tag n ats [c]) = dot_string c"
| "dot_string (Tag n ats cs) = None"

text \<open>The words of an attribute value, as the parser splits \<open>class\<close>.\<close>

fun split_ws :: "string \<Rightarrow> string \<Rightarrow> string list" where
  "split_ws cur [] = (if cur = [] then [] else [cur])"
| "split_ws cur (c # cs) =
     (if is_space c then (if cur = [] then split_ws [] cs else cur # split_ws [] cs)
      else split_ws (cur @ [c]) cs)"

text \<open>\<open>tag.get('class') or []\<close>\<close>

definition classes :: "node \<Rightarrow> string list" where
  "classes t = (case attr t ''class'' of None \<Rightarrow> [] | Some v \<Rightarrow> split_ws [] v)"

text \<open>\<open>sep.join(xs)\<close>\<close>

fun join :: "string \<Rightarrow> string list \<Rightarrow> string" where
  "join sep [] = []"
| "join sep [x] = x"
| "join sep (x # y # ys) = x @ sep @ join sep (y # ys)"

text \<open>\<open>soup.select('.c')\<close>: the tags that have the class.\<close>

definition select_class :: "string \<Rightarrow> node \<Rightarrow> node list" where
  "select_class c t = find_all (\<lambda>d. c \<in> set (classes d)) t"

text \<open>A Python dict as the list of its items in insertion order: \<open>d[k] = v\<close> replaces
  the value of a key that is there and appends a new key.\<close>

fun dict_set :: "('k \<times> 'v) list \<Rightarrow> 'k \<Rightarrow> 'v \<Rightarrow> ('k \<times> 'v) list" where
  "dict_set [] k v = [(k, v)]"
| "dict_set ((k', v') # d) k v =
     (if k' = k then (k, v) # d else (k', v') # dict_set d k v)"

subsection \<open>Page Analyzer (extract\_links\_and\_text)\<close>

text \<open>What the program takes from its libraries and its runtime.\<close>

record runtime =
  requests_get :: "string \<Rightarrow> get_outcome"
  urljoin :: "string \<Rightarrow> string \<Rightarrow> string option"
  BeautifulSoup :: "string \<Rightarrow> node"
  findall_emails :: "string \<Rightarrow> string list"
  findall_phones :: "string \<Rightarrow> string list"
  list_of_set :: "string list \<Rightarrow> string list"
  HttpUrl :: "string \<Rightarrow> string option"

text \<open>
  \<^item> \<open>requests_get url\<close>: the outcome of \<open>requests.get(url, ...)\<close>;
  \<^item> \<open>urljoin base url\<close>: \<open>requests.compat.urljoin(base, url)\<close>, \<open>None\<close> when the call
    raises \<open>ValueError\<close>;
  \<^item> \<open>BeautifulSoup html\<close>: the document \<open>BeautifulSoup(html, 'html.parser')\<close>;
  \<^item> \<open>findall_emails html\<close>, \<open>findall_phones html\<close>: the matches of the two
    \<open>re.findall\<close> calls, in order;
  \<^item> \<open>list_of_set xs\<close>: \<open>list(set(xs))\<close>, the distinct elements of \<open>xs\<close> in the order the
    set iterates, which follows the string hashes of the running process;
  \<^item> \<open>HttpUrl u\<close>: the value pydantic stores for a field of type \<open>HttpUrl\<close>, \<open>None\<close> when
    it rejects \<open>u\<close>.
\<close>

text \<open>\<open>a['href']\<close> for an anchor found with \<open>href=True\<close>.\<close>

definition href_of :: "node \<Rightarrow> string" where
  "href_of a = or_empty (attr a ''href'')"

text \<open>\<open>soup.find_all('a', href=True)\<close>\<close>

definition anchors :: "node \<Rightarrow> node list" where
  "anchors soup = find_all (\<lambda>d. is_named ''a'' d \<and> attr d ''href'' \<noteq> None) soup"

text \<open>\<open>soup.title.string.strip() if soup.title and soup.title.string else None\<close>\<close>

definition page_title :: "node \<Rightarrow> string option" where
  "page_title soup =
     (case find_tag (is_named ''title'') soup of
        None \<Rightarrow> None
      | Some t \<Rightarrow>
          (case dot_string t of
             None \<Rightarrow> None
           | Some s \<Rightarrow> if s = [] then None else Some (strip s)))"

text \<open>\<open>{a.get_text(strip=True): a.get('href') for a in soup.find_all('a', href=True)}\<close>\<close>

definition page_links :: "node \<Rightarrow> (string \<times> string) list" where
  "page_links soup = foldl (\<lambda>d a. dict_set d (get_text a) (href_of a)) [] (anchors soup)"

definition selectors :: "string list" where
  "selectors = [''product-card'', ''product'', ''featured-product'', ''grid-item'',
                ''product-grid-item'']"

text \<open>
\<^verbatim>\<open>
for sel in selectors:
    for card in soup.select(sel):
        a = card.find('a', href=True)
        if a:
            product_cards.append({'href': a['href'], 'text': a.get_text(strip=True)})
for tag in soup.find_all(attrs={"data-product-handle": True}):
    product_cards.append({'href': tag.get('data-product-handle'),
                          'text': tag.get_text(strip=True)})
\<close>\<close>

definition selector_cards :: "node \<Rightarrow> string \<Rightarrow> card list" where
  "selector_cards soup sel =
     concat (map (\<lambda>el. case find_tag (\<lambda>d. is_named ''a'' d \<and> attr d ''href'' \<noteq> None) el of
                         None \<Rightarrow> []
                       | Some a \<Rightarrow> [\<lparr>href = Some (href_of a), card_text = Some (get_text a)\<rparr>])
                 (select_class sel soup))"

definition page_product_cards :: "node \<Rightarrow> card list" where
  "page_product_cards soup =
     concat (map (selector_cards soup) selectors) @
     map (\<lambda>t. \<lparr>href = attr t ''data-product-handle'', card_text = Some (get_text t)\<rparr>)
       (find_all (\<lambda>d. attr d ''data-product-handle'' \<noteq> None) soup)"

text \<open>
\<^verbatim>\<open>
about_candidates = soup.find_all(lambda tag: tag.name in ['p', 'div'] and
    ('about' in (tag.get('id') or '').lower() or
     'about' in ' '.join(tag.get('class') or []).lower()))
if about_candidates:
    about_text = ' '.join([c.get_text(strip=True) for c in about_candidates[:3]])
else:
    desc = soup.find('meta', attrs={'name': 'description'})
    if desc and desc.get('content'):
        about_text = desc.get('content')
\<close>\<close>

definition about_candidate :: "node \<Rightarrow> bool" where
  "about_candidate d =
     ((is_named ''p'' d \<or> is_named ''div'' d) \<and>
      (contains ''about'' (lower (or_empty (attr d ''id''))) \<or>
       contains ''about'' (lower (join '' '' (classes d)))))"

definition page_about_text :: "node \<Rightarrow> string option" where
  "page_about_text soup =
     (let about_candidates = find_all about_candidate soup in
      if about_candidates \<noteq> [] then Some (join '' '' (map get_text (take 3 about_candidates)))
      else (case find_tag (\<lambda>d. is_named ''meta'' d \<and> attr d ''name'' = Some ''description'') soup of
              None \<Rightarrow> None
            | Some desc \<Rightarrow>
                (case attr desc ''content'' of
                   None \<Rightarrow> None
                 | Some c \<Rightarrow> if c = [] then None else Some c)))"

text \<open>The chain of tests on one href: the platform whose entry the anchor sets.
\<^verbatim>\<open>
if 'instagram.com' in href: social['instagram'] = href
elif 'facebook.com' in href: social['facebook'] = href
elif 'twitter.com' in href or 'x.com' in href: social['twitter'] = href
elif 'tiktok.com' in href: social['tiktok'] = href
elif 'youtube.com' in href: social['youtube'] = href
\<close>\<close>

definition platform :: "string \<Rightarrow> string option" where
  "platform h =
     (if contains ''instagram.com'' h then Some ''instagram''
      else if contains ''facebook.com'' h then Some ''facebook''
      else if contains ''twitter.com'' h \<or> contains ''x.com'' h then Some ''twitter''
      else if contains ''tiktok.com'' h then Some ''tiktok''
      else if contains ''youtube.com'' h then Some ''youtube''
      else None)"

text \<open>The loop over the hrefs of the anchors, from the dict \<open>social\<close> so far.\<close>

fun social_loop :: "string list \<Rightarrow> (string \<times> string) list \<Rightarrow> (string \<times> string) list" where
  "social_loop [] social = social"
| "social_loop (h # hs) social =
     social_loop hs (case platform h of None \<Rightarrow> social | Some pl \<Rightarrow> dict_set social pl h)"

definition page_social :: "node \<Rightarrow> (string \<times> string) list" where
  "page_social soup = social_loop (map href_of (anchors soup)) []"

text \<open>The dict \<open>extract_links_and_text\<close> returns.\<close>

record parsed =
  parsed_title :: "string option"
  parsed_links :: "(string \<times> string) list"
  parsed_product_cards :: "card list"
  parsed_emails :: "string list"
  parsed_phones :: "string list"
  parsed_about_text :: "string option"
  parsed_social :: "(string \<times> string) list"

text \<open>
\<^verbatim>\<open>
def extract_links_and_text(html):
    soup = BeautifulSoup(html, "html.parser")
    title = ...
    links = ...
    ...
    emails = set(re.findall(r"[a-zA-Z0-9_.+-]+@[a-zA-Z0-9-]+\.[a-zA-Z0-9-.]+", html))
    phones = set(re.findall(r"\+?\d[\d\-\s()]{6,}\d", html))
    ...
    return {'title': title, 'links': links, 'product_cards': product_cards,
            'emails': list(emails), 'phones': list(phones),
            'about_text': about_text, 'social': social}
\<close>\<close>

definition extract_links_and_text :: "runtime \<Rightarrow> string \<Rightarrow> parsed" where
  "extract_links_and_text rt html =
     (let soup = BeautifulSoup rt html in
      \<lparr>parsed_title = page_title soup,
       parsed_links = page_links soup,
       parsed_product_cards = page_product_cards soup,
       parsed_emails = list_of_set rt (findall_emails rt html),
       parsed_phones = list_of_set rt (findall_phones rt html),
       parsed_about_text = page_about_text soup,
       parsed_social = page_social soup\<rparr>)"

subsection \<open>Policy Resolver (find\_policy\_links)\<close>

text \<open>The dict \<open>patterns\<close>, in the order of its items.\<close>

definition patterns :: "(string \<times> string list) list" where
  "patterns =
     [(''privacy_policy'', [''/policies/privacy-policy'', ''/policies/privacy-policy/'']),
      (''refund_policy'', [''/policies/refund-policy'', ''/policies/refund-policy/'',
                          ''/policies/returns'', ''/policies/return-policy'']),
      (''terms_of_service'', [''/policies/terms-of-service'', ''/policies/terms-of-service/''])]"

text \<open>\<open>requests.compat.urljoin(base, v)\<close> is the library's \<open>urljoin\<close>, which raises
  \<open>ValueError\<close> on some hrefs (an opening bracket in the host without a closing one, for
  one). The join is a parameter with the result \<open>None\<close> where the call raises; nothing in
  the program catches the exception.
\<^verbatim>\<open>
for pat in pats:
    if pat in v:
        policies[name] = requests.compat.urljoin(base, v)
\<close>
  on the current value \<open>cur\<close> of \<open>policies[name]\<close>.\<close>

fun pats_loop :: "(string \<Rightarrow> string \<Rightarrow> string option) \<Rightarrow> string \<Rightarrow> string \<Rightarrow> string list \<Rightarrow> string option \<Rightarrow> error + string option" where
  "pats_loop join_url base v [] cur = Inr cur"
| "pats_loop join_url base v (pat # pats) cur =
     (if contains pat v then
        (case join_url base v of
           None \<Rightarrow> Inl ValueError
         | Some u \<Rightarrow> pats_loop join_url base v pats (Some u))
      else pats_loop join_url base v pats cur)"

text \<open>
\<^verbatim>\<open>
for k, v in html_links.items():
    if not v:
        continue
    for pat in pats: ...
\<close>\<close>

fun links_loop :: "(string \<Rightarrow> string \<Rightarrow> string option) \<Rightarrow> string \<Rightarrow> string list \<Rightarrow> (string \<times> string) list \<Rightarrow> string option \<Rightarrow> error + string option" where
  "links_loop join_url base pats [] cur = Inr cur"
| "links_loop join_url base pats ((k, v) # html_links) cur =
     (if v = [] then links_loop join_url base pats html_links cur
      else (case pats_loop join_url base v pats cur of
              Inl e \<Rightarrow> Inl e
            | Inr cur' \<Rightarrow> links_loop join_url base pats html_links cur'))"

text \<open>
\<^verbatim>\<open>
for pat in pats:
    candidate = base + pat
    r = safe_get(candidate)
    if r:
        policies[name] = candidate
        break
\<close>
  The result is the candidate recorded, if any, with the URLs requested.\<close>

fun probe_loop :: "(string \<Rightarrow> get_outcome) \<Rightarrow> string \<Rightarrow> string list \<Rightarrow> string option \<times> string list" where
  "probe_loop get base [] = (None, [])"
| "probe_loop get base (pat # pats) =
     (case safe_get get (base @ pat) of
        Some r \<Rightarrow> (Some (base @ pat), [base @ pat])
      | None \<Rightarrow> (case probe_loop get base pats of (res, reqs) \<Rightarrow> (res, (base @ pat) # reqs)))"

text \<open>The body of the loop over the categories, for one category: the final value of
  \<open>policies[name]\<close>, or the exception of the join, and the URLs requested.
  \<open>if not policies[name]\<close> holds for \<open>None\<close> and for the empty string.\<close>

definition resolve_category ::
  "(string \<Rightarrow> string \<Rightarrow> string option) \<Rightarrow> (string \<Rightarrow> get_outcome) \<Rightarrow> string \<Rightarrow> (string \<times> string) list \<Rightarrow>
     string list \<Rightarrow> (error + string option) \<times> string list" where
  "resolve_category join_url get base html_links pats =
     (case links_loop join_url base pats html_links None of
        Inl e \<Rightarrow> (Inl e, [])
      | Inr cur \<Rightarrow>
          if or_empty cur = [] then
            (case probe_loop get base pats of
               (None, reqs) \<Rightarrow> (Inr cur, reqs)
             | (Some candidate, reqs) \<Rightarrow> (Inr (Some candidate), reqs))
          else (Inr cur, []))"

text \<open>The loop over \<open>patterns.items()\<close>, on the dict \<open>policies\<close> and the URLs requested
  so far; an exception ends it.\<close>

fun categories_loop ::
  "(string \<Rightarrow> string \<Rightarrow> string option) \<Rightarrow> (string \<Rightarrow> get_outcome) \<Rightarrow> string \<Rightarrow> (string \<times> string) list \<Rightarrow>
     (string \<times> string list) list \<Rightarrow> (string \<times> string option) list \<times> string list \<Rightarrow>
     (error + (string \<times> string option) list) \<times> string list" where
  "categories_loop join_url get base html_links [] (policies, reqs) = (Inr policies, reqs)"
| "categories_loop join_url get base html_links ((name, pats) # rest) (policies, reqs) =
     (case resolve_category join_url get base html_links pats of
        (Inl e, reqs') \<Rightarrow> (Inl e, reqs @ reqs')
      | (Inr value, reqs') \<Rightarrow>
          categories_loop join_url get base html_links rest
            (dict_set policies name value, reqs @ reqs'))"

text \<open>
\<^verbatim>\<open>
def find_policy_links(base_url, html_links):
    policies = {'privacy_policy': None,'refund_policy': None,'terms_of_service': None}
    base = base_url.rstrip('/')
    patterns = {...}
    for name, pats in patterns.items():
        ...
    return policies
\<close>
  The result is the dict returned, or the exception that leaves the function, with the
  URLs requested, in order.\<close>

definition find_policy_links ::
  "(string \<Rightarrow> string \<Rightarrow> string option) \<Rightarrow> (string \<Rightarrow> get_outcome) \<Rightarrow> string \<Rightarrow> (string \<times> string) list \<Rightarrow>
     (error + (string \<times> string option) list) \<times> string list" where
  "find_policy_links join_url get base_url html_links =
     categories_loop join_url get (rstrip_slash base_url) html_links patterns
       ([(''privacy_policy'', None), (''refund_policy'', None), (''terms_of_service'', None)], [])"

text \<open>The resolution of one category in the words of the specification. The hrefs of
  the link table that are not empty and contain one of the category's path substrings,
  in the order of the table:\<close>

definition link_matches :: "string list \<Rightarrow> (string \<times> string) list \<Rightarrow> string list" where
  "link_matches pats html_links =
     filter (\<lambda>v. v \<noteq> [] \<and> list_ex (\<lambda>pat. contains pat v) pats) (map snd html_links)"

text \<open>The first candidate that is reachable, and the candidates probed: those before
  it and the candidate itself, or all of them when none is reachable.\<close>

definition first_reachable :: "(string \<Rightarrow> get_outcome) \<Rightarrow> string list \<Rightarrow> string option" where
  "first_reachable get candidates = find (\<lambda>u. safe_get get u \<noteq> None) candidates"

definition probed :: "(string \<Rightarrow> get_outcome) \<Rightarrow> string list \<Rightarrow> string list" where
  "probed get candidates =
     takeWhile (\<lambda>u. safe_get get u = None) candidates @
     take 1 (dropWhile (\<lambda>u. safe_get get u = None) candidates)"

text \<open>A category with a match in the link table is resolved to the join of the base
  and the last matching href (\<open>joined v\<close> is the join of the base and \<open>v\<close>), with no
  request; otherwise to the first reachable candidate, with the requests of the probe.\<close>

definition resolved ::
  "(string \<Rightarrow> string) \<Rightarrow> (string \<Rightarrow> get_outcome) \<Rightarrow> string \<Rightarrow> (string \<times> string) list \<Rightarrow>
     string list \<Rightarrow> string option \<times> string list" where
  "resolved joined get base html_links pats =
     (if link_matches pats html_links \<noteq> []
      then (Some (joined (last (link_matches pats html_links))), [])
      else (first_reachable get (map ((@) base) pats), probed get (map ((@) base) pats)))"

subsection \<open>FAQ Extractor (try\_fetch\_faqs)\<close>

text \<open>An entry \<open>{'q': q, 'a': a}\<close>.\<close>

record faq =
  faq_q :: string
  faq_a :: string

text \<open>
\<^verbatim>\<open>
summary = details.find('summary')
if summary:
    q = summary.get_text(strip=True)
    a = details.get_text(strip=True).replace(q, '').strip()
    faqs.append({'q': q, 'a': a})
\<close>\<close>

definition details_entry :: "node \<Rightarrow> faq list" where
  "details_entry details =
     (case find_tag (is_named ''summary'') details of
        None \<Rightarrow> []
      | Some summary \<Rightarrow>
          [\<lparr>faq_q = get_text summary,
            faq_a = strip (replace (get_text summary) [] (get_text details))\<rparr>])"

text \<open>The two patterns are written \<open>'question|q\b'\<close> and \<open>'answer|a\b'\<close>, without the
  \<open>r\<close> prefix: in such a literal \<open>\b\<close> is the backspace character 0x08, so the second
  alternative is the letter followed by a backspace. With \<open>re.I\<close> the search ignores
  case.\<close>

definition question_re :: "string \<Rightarrow> bool" where
  "question_re s =
     (contains ''question'' (lower s) \<or> contains [CHR ''q'', CHR 0x08] (lower s))"

definition answer_re :: "string \<Rightarrow> bool" where
  "answer_re s =
     (contains ''answer'' (lower s) \<or> contains [CHR ''a'', CHR 0x08] (lower s))"

text \<open>\<open>tag.find(class_=re.compile(...))\<close> tests a tag by searching the pattern in each
  of its classes and in the classes joined by spaces; a tag without a \<open>class\<close>
  attribute fails the test.\<close>

definition class_search :: "(string \<Rightarrow> bool) \<Rightarrow> node \<Rightarrow> bool" where
  "class_search rx d =
     (case attr d ''class'' of
        None \<Rightarrow> False
      | Some v \<Rightarrow> list_ex rx (split_ws [] v) \<or> rx (join '' '' (split_ws [] v)))"

text \<open>
\<^verbatim>\<open>
q_tag = li.find(class_=re.compile('question|q\b', re.I))
a_tag = li.find(class_=re.compile('answer|a\b', re.I))
if q_tag and a_tag:
    faqs.append({'q': q_tag.get_text(strip=True), 'a': a_tag.get_text(strip=True)})
\<close>\<close>

definition fallback_entry :: "node \<Rightarrow> faq list" where
  "fallback_entry li =
     (case find_tag (class_search question_re) li of
        None \<Rightarrow> []
      | Some q_tag \<Rightarrow>
          (case find_tag (class_search answer_re) li of
             None \<Rightarrow> []
           | Some a_tag \<Rightarrow> [\<lparr>faq_q = get_text q_tag, faq_a = get_text a_tag\<rparr>]))"

text \<open>\<open>soup.select('.faq, .faqs, .accordion, .question')\<close>: the tags with one of the
  four classes, each once, in document order.\<close>

definition faq_containers :: "node \<Rightarrow> node list" where
  "faq_containers soup =
     find_all (\<lambda>d. list_ex (\<lambda>c. c \<in> set (classes d))
                       [''faq'', ''faqs'', ''accordion'', ''question'']) soup"

text \<open>
\<^verbatim>\<open>
def try_fetch_faqs(soup):
    faqs = []
    for details in soup.find_all('details'):
        ...
    if not faqs:
        for li in soup.select('.faq, .faqs, .accordion, .question'):
            ...
    return faqs
\<close>\<close>

definition try_fetch_faqs :: "node \<Rightarrow> faq list" where
  "try_fetch_faqs soup =
     (let faqs = concat (map details_entry (find_all (is_named ''details'') soup)) in
      if faqs = [] then concat (map fallback_entry (faq_containers soup)) else faqs)"

subsection \<open>Context Assembler (fetch\_insights)\<close>

text \<open>
\<^verbatim>\<open>
class ContactInfo(BaseModel):
    emails: List[str] = []
    phones: List[str] = []
    addresses: List[str] = []

class BrandContext(BaseModel):
    website_url: HttpUrl
    store_title: Optional[str]
    about_text: Optional[str]
    products: List[Product] = []
    hero_products: List[Product] = []
    policies: Dict[str, Optional[str]] = {}
    faqs: List[Dict[str, str]] = []
    social_handles: Dict[str, str] = {}
    contact: ContactInfo = ContactInfo()
    important_links: Dict[str, str] = {}
    metadata: Dict[str, Any] = {}
\<close>\<close>

record ContactInfo =
  emails :: "string list"
  phones :: "string list"
  addresses :: "string list"

record BrandContext =
  website_url :: string
  store_title :: "string option"
  about_text :: "string option"
  products :: "Product list"
  hero_products :: "Product list"
  policies :: "(string \<times> string option) list"
  faqs :: "faq list"
  social_handles :: "(string \<times> string) list"
  contact :: ContactInfo
  important_links :: "(string \<times> string) list"
  metadata :: "(string \<times> int) list"

text \<open>\<open>important[key] = requests.compat.urljoin(website_url, href)\<close>; the join can raise
  \<open>ValueError\<close>, as in the Policy Resolver.\<close>

definition set_joined ::
  "(string \<Rightarrow> string \<Rightarrow> string option) \<Rightarrow> string \<Rightarrow> string \<Rightarrow> (string \<times> string) list \<Rightarrow> string \<Rightarrow>
     error + (string \<times> string) list" where
  "set_joined join_url url h important key =
     (case join_url url h of
        None \<Rightarrow> Inl ValueError
      | Some j \<Rightarrow> Inr (dict_set important key j))"

text \<open>The body of the loop over the link table.
\<^verbatim>\<open>
for text, href in parsed.get('links', {}).items():
    if not href:
        continue
    ltext = (text or '').lower()
    href_l = href.lower()
    if 'track' in ltext or 'track' in href_l:
        important['order_tracking'] = requests.compat.urljoin(website_url, href)
    if 'contact' in ltext or 'contact' in href_l:
        important['contact'] = requests.compat.urljoin(website_url, href)
    if 'blog' in ltext or '/blogs' in href_l:
        important['blog'] = requests.compat.urljoin(website_url, href)
\<close>\<close>

definition important_step ::
  "(string \<Rightarrow> string \<Rightarrow> string option) \<Rightarrow> string \<Rightarrow> (string \<times> string) list \<Rightarrow> string \<times> string \<Rightarrow>
     error + (string \<times> string) list" where
  "important_step join_url url important item =
     (case item of (txt, h) \<Rightarrow>
        if h = [] then Inr important
        else
          (let ltext = lower txt;
               href_l = lower h
           in case (if contains ''track'' ltext \<or> contains ''track'' href_l
                    then set_joined join_url url h important ''order_tracking''
                    else Inr important) of
                Inl e \<Rightarrow> Inl e
              | Inr i1 \<Rightarrow>
                  (case (if contains ''contact'' ltext \<or> contains ''contact'' href_l
                         then set_joined join_url url h i1 ''contact''
                         else Inr i1) of
                     Inl e \<Rightarrow> Inl e
                   | Inr i2 \<Rightarrow>
                       (if contains ''blog'' ltext \<or> contains ''/blogs'' href_l
                        then set_joined join_url url h i2 ''blog''
                        else Inr i2))))"

fun important_loop ::
  "(string \<Rightarrow> string \<Rightarrow> string option) \<Rightarrow> string \<Rightarrow> (string \<times> string) list \<Rightarrow> (string \<times> string) list \<Rightarrow>
     error + (string \<times> string) list" where
  "important_loop join_url url [] important = Inr important"
| "important_loop join_url url (item # html_links) important =
     (case important_step join_url url important item of
        Inl e \<Rightarrow> Inl e
      | Inr important' \<Rightarrow> important_loop join_url url html_links important')"

text \<open>Lines 233 and 234: a URL that does not start with \<open>http\<close> gets the scheme.
\<^verbatim>\<open>
if not website_url.startswith('http'):
    website_url = 'https://' + website_url
\<close>\<close>

definition with_scheme :: "string \<Rightarrow> string" where
  "with_scheme u = (if prefix ''http'' u then u else ''https://'' @ u)"

text \<open>The guard of the retry, \<open>website_url.startswith('https://') and 'www.' not in
  website_url\<close>, and the URL retried, \<open>website_url.replace('https://', 'https://www.')\<close>.\<close>

definition retry_applies :: "string \<Rightarrow> bool" where
  "retry_applies url = (prefix ''https://'' url \<and> \<not> contains ''www.'' url)"

definition www_variant :: "string \<Rightarrow> string" where
  "www_variant url = replace ''https://'' ''https://www.'' url"

text \<open>The two exceptions the function raises itself.\<close>

definition missing_input :: error where
  "missing_input = HTTPException 400 ''website_url is required''"

definition unreachable :: "string \<Rightarrow> error" where
  "unreachable url = HTTPException 401 (''Website not found or unreachable: '' @ url)"

text \<open>Lines 235 to 243 of \<open>fetch_insights\<close>: the fetch of the homepage with its one
  retry. The result is the URL kept and its response, or the exception raised, with the
  URLs requested.
\<^verbatim>\<open>
r = safe_get(website_url)
if not r:
    if website_url.startswith('https://') and 'www.' not in website_url:
        alt = website_url.replace('https://', 'https://www.')
        r = safe_get(alt)
        if r:
            website_url = alt
if not r:
    raise HTTPException(status_code=401,
        detail=f"Website not found or unreachable: {website_url}")
\<close>\<close>

definition fetch_homepage ::
  "(string \<Rightarrow> get_outcome) \<Rightarrow> string \<Rightarrow> (error + string \<times> response) \<times> string list" where
  "fetch_homepage get url =
     (case safe_get get url of
        Some r \<Rightarrow> (Inr (url, r), [url])
      | None \<Rightarrow>
          if retry_applies url then
            (let alt = www_variant url in
             case safe_get get alt of
               Some r \<Rightarrow> (Inr (alt, r), [url, alt])
             | None \<Rightarrow> (Inl (unreachable url), [url, alt]))
          else (Inl (unreachable url), [url]))"

text \<open>Lines 244 to 292: the pipeline on the homepage fetched from \<open>url\<close>. An exception
  of the feed stage leaves the function before the policies are probed, one of the
  Policy Resolver before the important links are collected; the construction of
  \<open>BrandContext\<close> validates \<open>website_url\<close>. The optional write to the database
  (\<open>PERSIST_DB\<close>) sits in a \<open>try\<close> that swallows every exception and does not change the
  value returned; it is left out.\<close>

definition assemble :: "runtime \<Rightarrow> string \<Rightarrow> response \<Rightarrow> (error + BrandContext) \<times> string list" where
  "assemble rt url r =
     (let html = resp_text r;
          parsed = extract_links_and_text rt html
      in case fetch_products_json (requests_get rt) url of
           (Inl e, reqs) \<Rightarrow> (Inl e, reqs)
         | (Inr catalog, reqs) \<Rightarrow>
             (let heroes = hero_product_matches (parsed_product_cards parsed) catalog url
              in case find_policy_links (urljoin rt) (requests_get rt) url (parsed_links parsed) of
                   (Inl e, reqs') \<Rightarrow> (Inl e, reqs @ reqs')
                 | (Inr pols, reqs') \<Rightarrow>
                     (case important_loop (urljoin rt) url (parsed_links parsed) [] of
                        Inl e \<Rightarrow> (Inl e, reqs @ reqs')
                      | Inr important \<Rightarrow>
                          (case HttpUrl rt url of
                             None \<Rightarrow> (Inl ValidationError, reqs @ reqs')
                           | Some u \<Rightarrow>
                               (Inr \<lparr>website_url = u,
                                     store_title = parsed_title parsed,
                                     about_text = parsed_about_text parsed,
                                     products = catalog,
                                     hero_products = heroes,
                                     policies = pols,
                                     faqs = try_fetch_faqs (BeautifulSoup rt html),
                                     social_handles = parsed_social parsed,
                                     contact = \<lparr>emails = parsed_emails parsed,
                                                 phones = parsed_phones parsed,
                                                 addresses = []\<rparr>,
                                     important_links = important,
                                     metadata =
                                       [(''found_products_count'', int (length catalog)),
                                        (''found_hero_count'', int (length heroes))]\<rparr>,
                                reqs @ reqs')))))"

text \<open>
\<^verbatim>\<open>
@app.post('/fetch', response_model=BrandContext)
def fetch_insights(payload: Dict[str, str]):
    website_url = payload.get('website_url')
    if not website_url:
        raise HTTPException(status_code=400, detail="website_url is required")
    if not website_url.startswith('http'):
        website_url = 'https://' + website_url
    r = safe_get(website_url)
    ...
    return result
\<close>
  The result is the \<open>BrandContext\<close> returned or the exception that leaves the function,
  with the URLs requested, in order.\<close>

definition fetch_insights :: "runtime \<Rightarrow> (string \<rightharpoonup> string) \<Rightarrow> (error + BrandContext) \<times> string list" where
  "fetch_insights rt payload =
     (case payload ''website_url'' of
        None \<Rightarrow> (Inl missing_input, [])
      | Some u \<Rightarrow>
          if u = [] then (Inl missing_input, [])
          else
            (case fetch_homepage (requests_get rt) (with_scheme u) of
               (Inl e, reqs) \<Rightarrow> (Inl e, reqs)
             | (Inr (url, r), reqs) \<Rightarrow>
                 (case assemble rt url r of (res, reqs') \<Rightarrow> (res, reqs @ reqs'))))"

section \<open>Concrete inputs\<close>

text \<open>A small catalog and a homepage's product cards, used to run the definitions.\<close>

definition widget :: Product where
  "widget = \<lparr>id' = Some 1, title = Some ''Widget'', handle = Some ''widget'',
             variants = None, images = Some []\<rparr>"

definition gadget :: Product where
  "gadget = \<lparr>id' = Some 2, title = Some ''Gadget'', handle = None,
             variants = None, images = Some []\<rparr>"

definition example_cards :: "card list" where
  "example_cards =
     [\<lparr>href = Some ''/products/widget'', card_text = Some ''Our widget''\<rparr>,
      \<lparr>href = Some ''/collections/all'', card_text = Some ''Shiny GADGET''\<rparr>,
      \<lparr>href = Some ''/products/WIDGET?variant=1'', card_text = None\<rparr>]"



text \<open>A storefront whose feed path answers 200 with the JSON document \<open>[]\<close>.\<close>

definition array_feed_get :: "string \<Rightarrow> get_outcome" where
  "array_feed_get =
     (\<lambda>u. Returned \<lparr>status_code = 200, resp_text = ''[]'', resp_json = Some (JArray [])\<rparr>)"

text \<open>Two pages with one FAQ container and no \<open>details\<close> element: the first marks
  question and answer with the classes \<open>q\<close> and \<open>a\<close>, the second with \<open>question\<close> and
  \<open>answer\<close> (Scenario D).\<close>

definition faq_page_letters :: node where
  "faq_page_letters =
     Tag ''[document]'' []
       [Tag ''div'' [(''class'', ''faq'')]
          [Tag ''span'' [(''class'', ''q'')] [NavigableString ''Shipping?''],
           Tag ''span'' [(''class'', ''a'')] [NavigableString ''Two days.'']]]"

definition faq_page_words :: node where
  "faq_page_words =
     Tag ''[document]'' []
       [Tag ''div'' [(''class'', ''faq'')]
          [Tag ''div'' [(''class'', ''question'')] [NavigableString '' Shipping? ''],
           Tag ''div'' [(''class'', ''answer'')] [NavigableString ''Two days.'']]]"

text \<open>A join that agrees with \<open>urljoin\<close> on the hrefs used below: on an href that starts
  with \<open>//[\<close> and has no closing bracket, \<open>urljoin\<close> raises \<open>ValueError\<close> (invalid IPv6
  URL); an absolute URL is kept; a path that starts with \<open>/\<close> is put after a base that
  has no path.\<close>

definition example_urljoin :: "string \<Rightarrow> string \<Rightarrow> string option" where
  "example_urljoin b u =
     (if prefix ''//['' u \<and> \<not> contains '']'' u then None
      else Some (if prefix ''http'' u then u else b @ u))"

text \<open>A runtime without network, whose pages parse to the empty document.\<close>

definition offline :: runtime where
  "offline =
     \<lparr>requests_get = (\<lambda>u. RequestException),
      urljoin = example_urljoin,
      BeautifulSoup = (\<lambda>h. Tag ''[document]'' [] []),
      findall_emails = (\<lambda>h. []),
      findall_phones = (\<lambda>h. []),
      list_of_set = remdups,
      HttpUrl = Some\<rparr>"

text \<open>A storefront where, of the policy paths, only \<open>/policies/returns\<close> answers.\<close>

definition policy_get :: "string \<Rightarrow> get_outcome" where
  "policy_get =
     (\<lambda>u. if u = ''https://shop.example/policies/returns''
          then Returned \<lparr>status_code = 200, resp_text = [], resp_json = None\<rparr>
          else RequestException)"

text \<open>A storefront whose homepage answers at one URL only (no feed, no policy pages),
  with three matches of the email pattern, two of them equal.\<close>

definition storefront :: "string \<Rightarrow> runtime" where
  "storefront home =
     offline
       \<lparr>requests_get :=
          (\<lambda>u. if u = home
               then Returned \<lparr>status_code = 200, resp_text = ''<html></html>'', resp_json = None\<rparr>
               else RequestException),
        findall_emails := (\<lambda>h. [''a@shop.example'', ''b@shop.example'', ''a@shop.example''])\<rparr>"

section \<open>Properties\<close>

subsection \<open>The Fetcher\<close>


subsection \<open>The Hero Matcher\<close>

text \<open>The second loop with a non-empty \<open>unique\<close> is the loop from an empty one, put
  after what was there.\<close>

lemma unique_loop_append: "unique_loop hs u seen = u @ unique_loop hs [] seen"
proof (induction hs arbitrary: u seen)
  case Nil
  then show ?case by simp
next
  case (Cons h hs)
  show ?case
    using Cons.IH [of "u @ [h]" "insert (identity_key h) seen"]
      Cons.IH [of "[h]" "insert (identity_key h) seen"] Cons.IH [of u seen]
    by simp
qed

lemma unique_loop_Cons:
  "unique_loop (h # hs) [] seen =
     (if identity_key h \<in> seen then unique_loop hs [] seen
      else h # unique_loop hs [] (insert (identity_key h) seen))"
  using unique_loop_append [of hs "[h]" "insert (identity_key h) seen"] by simp

lemma unique_loop_subseq: "subseq (unique_loop hs [] seen) hs"
  by (induction hs arbitrary: seen)
    (auto simp add: unique_loop_Cons simp del: unique_loop.simps(2))

lemma unique_loop_subset: "set (unique_loop hs [] seen) \<subseteq> set hs"
  by (induction hs arbitrary: seen)
    (auto simp add: unique_loop_Cons simp del: unique_loop.simps(2))

lemma unique_loop_keys:
  "identity_key ` set (unique_loop hs [] seen) = identity_key ` set hs - seen"
  by (induction hs arbitrary: seen)
    (auto simp add: unique_loop_Cons simp del: unique_loop.simps(2))

lemma unique_loop_distinct: "distinct (map identity_key (unique_loop hs [] seen))"
proof (induction hs arbitrary: seen)
  case Nil
  then show ?case by simp
next
  case (Cons h hs)
  have "identity_key h \<notin> identity_key ` set (unique_loop hs [] (insert (identity_key h) seen))"
    by (simp add: unique_loop_keys)
  with Cons.IH show ?case
    by (simp add: unique_loop_Cons del: unique_loop.simps(2))
qed

text \<open>An entry that is kept is the first of the matches with its key.\<close>

lemma unique_loop_first:
  "h \<in> set (unique_loop hs [] seen) \<Longrightarrow>
     find (\<lambda>x. identity_key x = identity_key h) hs = Some h"
proof (induction hs arbitrary: seen)
  case Nil
  then show ?case by simp
next
  case (Cons x xs)
  show ?case
  proof (cases "identity_key x \<in> seen")
    case True
    with Cons.prems have in_rest: "h \<in> set (unique_loop xs [] seen)"
      by (simp add: unique_loop_Cons del: unique_loop.simps(2))
    then have "identity_key h \<in> identity_key ` set xs - seen"
      using unique_loop_keys [of xs seen] by blast
    with True have "identity_key x \<noteq> identity_key h" by auto
    with Cons.IH [OF in_rest] show ?thesis by simp
  next
    case False
    with Cons.prems have "h = x \<or> h \<in> set (unique_loop xs [] (insert (identity_key x) seen))"
      by (simp add: unique_loop_Cons del: unique_loop.simps(2))
    then show ?thesis
    proof
      assume "h = x"
      then show ?thesis by simp
    next
      assume in_rest: "h \<in> set (unique_loop xs [] (insert (identity_key x) seen))"
      then have "identity_key h \<in> identity_key ` set xs - insert (identity_key x) seen"
        using unique_loop_keys [of xs "insert (identity_key x) seen"] by blast
      then have "identity_key x \<noteq> identity_key h" by auto
      with Cons.IH [OF in_rest] show ?thesis by simp
    qed
  qed
qed

text \<open>Every match comes from the catalog: the lookup holds catalog products only, and
  the title scan returns one of them.\<close>

lemma handles_to_product_ran: "ran (handles_to_product ps m) \<subseteq> ran m \<union> set ps"
proof (induction ps arbitrary: m)
  case Nil
  then show ?case by simp
next
  case (Cons p ps)
  let ?m' = "m(lower (or_empty (handle p)) \<mapsto> p)"
  have upd: "ran ?m' \<subseteq> ran m \<union> {p}"
    by (auto simp: ran_def split: if_splits)
  have step: "handles_to_product (p # ps) m = handles_to_product ps ?m'"
    by simp
  have "ran (handles_to_product ps ?m') \<subseteq> ran ?m' \<union> set ps"
    by (rule Cons.IH)
  with upd have "ran (handles_to_product ps ?m') \<subseteq> ran m \<union> insert p (set ps)"
    by blast
  then show ?case
    unfolding step by simp
qed

lemma title_match_subset: "set (title_match txt ps) \<subseteq> set ps"
  by (induction ps) auto

lemma card_heroes_subset:
  "ran h2p \<subseteq> set catalog \<Longrightarrow> set (card_heroes h2p catalog c) \<subseteq> set catalog"
  using title_match_subset [of "lower (or_empty (card_text c))" catalog]
  by (auto simp: card_heroes_def Let_def ran_def split: option.splits)

lemma heroes_loop_subset:
  "ran h2p \<subseteq> set catalog \<Longrightarrow> set heroes \<subseteq> set catalog \<Longrightarrow>
     set (heroes_loop h2p catalog cs heroes) \<subseteq> set catalog"
proof (induction cs arbitrary: heroes)
  case Nil
  then show ?case by simp
next
  case (Cons c cs)
  from Cons.prems card_heroes_subset [of h2p catalog c]
  have "set (heroes @ card_heroes h2p catalog c) \<subseteq> set catalog" by simp
  with Cons show ?case by simp
qed

lemma hero_candidates_subset: "set (hero_candidates cards catalog) \<subseteq> set catalog"
  unfolding hero_candidates_def
  using handles_to_product_ran [of catalog Map.empty]
  by (intro heroes_loop_subset) auto

text \<open>
  C1. For every list of candidates and every catalog, the list \<open>hero_product_matches\<close>
  returns holds catalog products only; no two of its entries have the same identity key
  (handle, else title, else \<open>str(id)\<close>); it is a subsequence of the matches in encounter
  order; each entry is the first match with its key, and (for a non-empty catalog) every
  key among the matches is kept; and it is empty for the empty catalog.
\<close>

theorem hero_product_matches_dedup:
  "set (hero_product_matches cards catalog base_url) \<subseteq> set catalog \<and>
   distinct (map identity_key (hero_product_matches cards catalog base_url)) \<and>
   subseq (hero_product_matches cards catalog base_url) (hero_candidates cards catalog) \<and>
   (\<forall>h \<in> set (hero_product_matches cards catalog base_url).
      find (\<lambda>x. identity_key x = identity_key h) (hero_candidates cards catalog) = Some h) \<and>
   (catalog \<noteq> [] \<longrightarrow>
      identity_key ` set (hero_product_matches cards catalog base_url) =
      identity_key ` set (hero_candidates cards catalog)) \<and>
   hero_product_matches cards [] base_url = []"
proof (cases "catalog = []")
  case True
  then show ?thesis by (simp add: hero_product_matches_def)
next
  case False
  let ?hs = "hero_candidates cards catalog"
  have eq: "hero_product_matches cards catalog base_url = unique_loop ?hs [] {}"
    using False by (simp add: hero_product_matches_def)
  have "set (unique_loop ?hs [] {}) \<subseteq> set ?hs"
    by (rule unique_loop_subset)
  then have sub: "set (unique_loop ?hs [] {}) \<subseteq> set catalog"
    using hero_candidates_subset [of cards catalog] by blast
  show ?thesis
    unfolding eq
    using sub unique_loop_distinct [of ?hs "{}"] unique_loop_subseq [of ?hs "{}"]
      unique_loop_keys [of ?hs "{}"] unique_loop_first [of _ ?hs "{}"]
    by (simp add: hero_product_matches_def)
qed

text \<open>Three candidates over a catalog of two: the first and the third link to the
  widget, the second names the gadget in its text. The matches are widget, gadget,
  widget; the second widget is dropped.\<close>

lemma example_hero_candidates:
  "hero_candidates example_cards [widget, gadget] = [widget, gadget, widget]"
  by (simp add: hero_candidates_def example_cards_def card_heroes_def widget_def gadget_def
      lower_def lower_char_def segment_char_def)

theorem hero_product_matches_dedup_witness:
  "hero_product_matches example_cards [widget, gadget] ''https://shop.example'' = [widget, gadget] \<and>
   hero_candidates example_cards [widget, gadget] = [widget, gadget, widget] \<and>
   find (\<lambda>x. identity_key x = identity_key widget)
     (hero_candidates example_cards [widget, gadget]) = Some widget \<and>
   find (\<lambda>x. identity_key x = identity_key gadget)
     (hero_candidates example_cards [widget, gadget]) = Some gadget \<and>
   identity_key widget \<noteq> identity_key gadget"
proof -
  have "hero_product_matches example_cards [widget, gadget] ''https://shop.example''
      = unique_loop [widget, gadget, widget] [] {}"
    by (simp add: hero_product_matches_def example_hero_candidates)
  also have "\<dots> = [widget, gadget]"
    by (simp add: identity_key_def widget_def gadget_def)
  finally have run: "hero_product_matches example_cards [widget, gadget] ''https://shop.example''
      = [widget, gadget]" .
  from hero_product_matches_dedup [of example_cards "[widget, gadget]" "''https://shop.example''"]
  show ?thesis
    unfolding run by (simp add: example_hero_candidates)
qed

subsection \<open>The Catalog Normalizer\<close>









text \<open>The soft failures the function does absorb: no response, and a body that is not
  JSON.\<close>

lemma fetch_products_json_unreachable:
  "safe_get get (rstrip_slash base_url @ ''/products.json'') = None \<Longrightarrow>
     fetch_products_json get base_url = (Inr [], [rstrip_slash base_url @ ''/products.json''])"
  by (simp add: fetch_products_json_def)

lemma fetch_products_json_non_json:
  "safe_get get (rstrip_slash base_url @ ''/products.json'') = Some r \<Longrightarrow> resp_json r = None \<Longrightarrow>
     fetch_products_json get base_url = (Inr [], [rstrip_slash base_url @ ''/products.json''])"
  by (simp add: fetch_products_json_def)

text \<open>
  C3. The claim is that \<open>fetch_products_json\<close> never raises. On a feed whose body is
  the JSON document \<open>[]\<close>, \<open>data.get("products")\<close> raises \<open>AttributeError\<close>, which the
  handler for \<open>ValueError\<close> does not catch: the exception leaves the function.
\<close>

theorem fetch_products_json_array_raises:
  "fetch_products_json array_feed_get ''https://shop.example'' =
     (Inl AttributeError, [''https://shop.example/products.json''])"
  by (simp add: fetch_products_json_def safe_get_def array_feed_get_def raw_products_def
      rstrip_slash_def)

subsection \<open>The FAQ Extractor\<close>

text \<open>Scenario D: the container with a \<open>question\<close> and an \<open>answer\<close> sub-element gives
  one entry, through the fallback.\<close>

lemma try_fetch_faqs_scenario_D:
  "try_fetch_faqs faq_page_words = [\<lparr>faq_q = ''Shipping?'', faq_a = ''Two days.''\<rparr>]"
  by (simp add: try_fetch_faqs_def faq_page_words_def find_all_def faq_containers_def
      classes_def is_space_def fallback_entry_def find_tag_def class_search_def question_re_def
      answer_re_def lower_def lower_char_def get_text_def strip_def)

text \<open>
  C8. The claim is that a sub-element whose class is the bare letter \<open>q\<close> counts as the
  question and one whose class is \<open>a\<close> as the answer. The patterns of the source match
  the letter followed by a backspace character instead, so on the page with the classes
  \<open>q\<close> and \<open>a\<close> nothing is extracted.
\<close>

theorem try_fetch_faqs_bare_letters:
  "try_fetch_faqs faq_page_letters = []"
  by (simp add: try_fetch_faqs_def faq_page_letters_def find_all_def faq_containers_def
      classes_def is_space_def fallback_entry_def find_tag_def class_search_def question_re_def
      answer_re_def lower_def lower_char_def)

subsection \<open>The Page Analyzer: social handles\<close>

lemma map_of_dict_set: "map_of (dict_set d k v) = (map_of d)(k \<mapsto> v)"
  by (induction d k v rule: dict_set.induct) auto

lemma keys_dict_set: "fst ` set (dict_set d k v) = insert k (fst ` set d)"
  by (induction d k v rule: dict_set.induct) auto

lemma distinct_dict_set: "distinct (map fst d) \<Longrightarrow> distinct (map fst (dict_set d k v))"
  by (induction d k v rule: dict_set.induct) (auto simp: keys_dict_set)

lemma platform_range:
  "platform h = Some pl \<Longrightarrow>
     pl \<in> {''instagram'', ''facebook'', ''twitter'', ''tiktok'', ''youtube''}"
  unfolding platform_def by (simp split: if_splits)

lemma social_loop_keys:
  "fst ` set (social_loop hs d) = fst ` set d \<union> {pl. \<exists>h \<in> set hs. platform h = Some pl}"
  by (induction hs arbitrary: d) (auto simp: keys_dict_set split: option.splits)

lemma social_loop_distinct:
  "distinct (map fst d) \<Longrightarrow> distinct (map fst (social_loop hs d))"
  by (induction hs arbitrary: d) (auto simp: distinct_dict_set split: option.splits)

lemma social_loop_map_of:
  "map_of (social_loop hs d) pl =
     (case filter (\<lambda>h. platform h = Some pl) hs of
        [] \<Rightarrow> map_of d pl
      | h # hs' \<Rightarrow> Some (last (h # hs')))"
proof (induction hs arbitrary: d)
  case Nil
  then show ?case by simp
next
  case (Cons h hs)
  show ?case
  proof (cases "platform h")
    case None
    then show ?thesis by (simp add: Cons.IH)
  next
    case (Some p)
    then show ?thesis
      by (simp add: Cons.IH map_of_dict_set split: list.splits)
  qed
qed

text \<open>
  C9, as amended. For every HTML input and every parser, the keys of the social-handle
  map are distinct and are among the five platforms. Each anchor counts for the first
  platform, in the order instagram, facebook, twitter, tiktok, youtube, whose substring
  its href contains (\<open>platform\<close>); a platform has an entry exactly when some anchor
  counts for it, and the entry is the href of the last such anchor in document order.
\<close>

theorem social_handles_last_match:
  "distinct (map fst (parsed_social (extract_links_and_text rt html))) \<and>
   set (map fst (parsed_social (extract_links_and_text rt html)))
     \<subseteq> {''instagram'', ''facebook'', ''twitter'', ''tiktok'', ''youtube''} \<and>
   map_of (parsed_social (extract_links_and_text rt html)) pl =
     (case filter (\<lambda>h. platform h = Some pl) (map href_of (anchors (BeautifulSoup rt html))) of
        [] \<Rightarrow> None
      | h # hs \<Rightarrow> Some (last (h # hs)))"
proof -
  let ?hs = "map href_of (anchors (BeautifulSoup rt html))"
  have soc: "parsed_social (extract_links_and_text rt html) = social_loop ?hs []"
    by (simp add: extract_links_and_text_def Let_def page_social_def)
  have keys: "set (map fst (social_loop ?hs []))
      \<subseteq> {''instagram'', ''facebook'', ''twitter'', ''tiktok'', ''youtube''}"
  proof
    fix pl
    assume "pl \<in> set (map fst (social_loop ?hs []))"
    then have "pl \<in> fst ` set (social_loop ?hs [])" by simp
    then obtain h where "platform h = Some pl"
      unfolding social_loop_keys by auto
    then show "pl \<in> {''instagram'', ''facebook'', ''twitter'', ''tiktok'', ''youtube''}"
      by (rule platform_range)
  qed
  have dist: "distinct (map fst (social_loop ?hs []))"
    by (rule social_loop_distinct) simp
  have look: "map_of (social_loop ?hs []) pl =
      (case filter (\<lambda>h. platform h = Some pl) ?hs of
         [] \<Rightarrow> None
       | h # hs \<Rightarrow> Some (last (h # hs)))"
    by (simp add: social_loop_map_of split: list.split)
  show ?thesis
    unfolding soc using keys dist look by blast
qed

text \<open>The claim as first stated asks for exactly the five keys. A page without anchors
  has none.\<close>

theorem social_handles_not_all_five:
  "set (map fst (parsed_social (extract_links_and_text offline [])))
     \<noteq> {''instagram'', ''facebook'', ''twitter'', ''tiktok'', ''youtube''}"
  by (simp add: extract_links_and_text_def Let_def offline_def page_social_def anchors_def
      find_all_def)

subsection \<open>The Policy Resolver\<close>

lemma pats_loop_eq:
  assumes "list_ex (\<lambda>pat. contains pat v) pats \<Longrightarrow> join_url base v = Some u"
  shows "pats_loop join_url base v pats cur =
           Inr (if list_ex (\<lambda>pat. contains pat v) pats then Some u else cur)"
  using assms by (induction pats arbitrary: cur) auto

lemma link_matches_Nil: "link_matches pats [] = []"
  by (simp add: link_matches_def)

lemma link_matches_Cons:
  "link_matches pats ((k, v) # html_links) =
     (if v \<noteq> [] \<and> list_ex (\<lambda>pat. contains pat v) pats
      then v # link_matches pats html_links else link_matches pats html_links)"
  by (simp add: link_matches_def)

lemma links_loop_eq:
  assumes "\<And>v. v \<in> set (link_matches pats html_links) \<Longrightarrow> join_url base v = Some (joined v)"
  shows "links_loop join_url base pats html_links cur =
           Inr (if link_matches pats html_links = [] then cur
                else Some (joined (last (link_matches pats html_links))))"
  using assms
proof (induction html_links arbitrary: cur)
  case Nil
  then show ?case by (simp add: link_matches_Nil)
next
  case (Cons kv html_links)
  obtain k v where kv: "kv = (k, v)" by (cases kv)
  have tail: "\<And>w. w \<in> set (link_matches pats html_links) \<Longrightarrow> join_url base w = Some (joined w)"
    using Cons.prems by (simp add: link_matches_Cons kv split: if_splits)
  note IH = Cons.IH [OF tail]
  show ?case
  proof (cases "v \<noteq> [] \<and> list_ex (\<lambda>pat. contains pat v) pats")
    case True
    then have "v \<in> set (link_matches pats (kv # html_links))"
      by (simp add: link_matches_Cons kv)
    then have j: "join_url base v = Some (joined v)" by (rule Cons.prems)
    have "pats_loop join_url base v pats cur = Inr (Some (joined v))"
      using pats_loop_eq [of v pats join_url base "joined v" cur] j True by simp
    with True show ?thesis
      unfolding kv by (simp add: IH link_matches_Cons)
  next
    case False
    have "pats_loop join_url base v pats cur = Inr cur" if "v \<noteq> []"
      using pats_loop_eq [of v pats join_url base "[]" cur] False that by simp
    with False show ?thesis
      unfolding kv by (auto simp add: IH link_matches_Cons)
  qed
qed

lemma probe_loop_eq:
  "probe_loop get base pats =
     (first_reachable get (map ((@) base) pats), probed get (map ((@) base) pats))"
  by (induction pats) (auto simp: first_reachable_def probed_def split: option.splits)

lemma resolve_category_eq:
  assumes "\<And>v. v \<in> set (link_matches pats html_links) \<Longrightarrow>
             join_url base v = Some (joined v) \<and> joined v \<noteq> []"
  shows "resolve_category join_url get base html_links pats =
           (Inr (fst (resolved joined get base html_links pats)),
            snd (resolved joined get base html_links pats))"
proof -
  have scan: "links_loop join_url base pats html_links None =
      Inr (if link_matches pats html_links = [] then None
           else Some (joined (last (link_matches pats html_links))))"
    using assms by (intro links_loop_eq) simp
  show ?thesis
  proof (cases "link_matches pats html_links = []")
    case True
    then show ?thesis
      by (simp add: resolve_category_def resolved_def scan probe_loop_eq split: option.splits)
  next
    case False
    then have "last (link_matches pats html_links) \<in> set (link_matches pats html_links)"
      by simp
    then have "joined (last (link_matches pats html_links)) \<noteq> []"
      using assms by blast
    with False show ?thesis
      by (simp add: resolve_category_def resolved_def scan)
  qed
qed

text \<open>
  C4, as amended. For every base URL and link table such that \<open>urljoin\<close> raises on
  none of the hrefs that match a category and joins none of them to the empty string
  (\<open>joined v\<close> is the join of the base and \<open>v\<close>), \<open>find_policy_links\<close> returns the three keys
  \<open>privacy_policy\<close>, \<open>refund_policy\<close>, \<open>terms_of_service\<close>, in that order, each with a URL
  or \<open>None\<close>, and every category is resolved as the specification says (\<open>resolved\<close>):
  from the link table, by the join of the base and the last matching href and without
  any request, when some href contains one of its path substrings; otherwise by probing
  its candidates in the declared order up to the first reachable one, which is recorded.
  The requests issued are those of the three categories, in order.
\<close>

theorem find_policy_links_resolved:
  assumes "\<And>pats v. pats \<in> snd ` set patterns \<Longrightarrow> v \<in> set (link_matches pats html_links) \<Longrightarrow>
             join_url (rstrip_slash base_url) v = Some (joined v) \<and> joined v \<noteq> []"
  shows "find_policy_links join_url get base_url html_links =
           (Inr (map (\<lambda>(name, pats).
                   (name, fst (resolved joined get (rstrip_slash base_url) html_links pats)))
              patterns),
            concat (map (\<lambda>(name, pats).
                   snd (resolved joined get (rstrip_slash base_url) html_links pats))
              patterns)) \<and>
         map fst (map (\<lambda>(name, pats).
                   (name, fst (resolved joined get (rstrip_slash base_url) html_links pats)))
              patterns) =
           [''privacy_policy'', ''refund_policy'', ''terms_of_service'']"
proof -
  have step: "resolve_category join_url get (rstrip_slash base_url) html_links pats =
      (Inr (fst (resolved joined get (rstrip_slash base_url) html_links pats)),
       snd (resolved joined get (rstrip_slash base_url) html_links pats))"
    if "pats \<in> snd ` set patterns" for pats
    using assms [OF that] by (intro resolve_category_eq) blast
  have p1: "[''/policies/privacy-policy'', ''/policies/privacy-policy/''] \<in> snd ` set patterns"
    and p2: "[''/policies/refund-policy'', ''/policies/refund-policy/'',
              ''/policies/returns'', ''/policies/return-policy''] \<in> snd ` set patterns"
    and p3: "[''/policies/terms-of-service'', ''/policies/terms-of-service/''] \<in> snd ` set patterns"
    by (simp_all add: patterns_def)
  show ?thesis
    by (simp add: find_policy_links_def patterns_def step [OF p1] step [OF p2] step [OF p3])
qed

text \<open>Scenario C with a probe: the link table resolves the privacy policy without a
  request; the refund policy is found at the third candidate, after which the fourth is
  not requested; no terms page answers.\<close>

theorem find_policy_links_resolved_witness:
  "find_policy_links example_urljoin policy_get ''https://shop.example/''
     [(''Privacy'', ''/policies/privacy-policy'')] =
   (Inr [(''privacy_policy'', Some ''https://shop.example/policies/privacy-policy''),
         (''refund_policy'', Some ''https://shop.example/policies/returns''),
         (''terms_of_service'', None)],
    [''https://shop.example/policies/refund-policy'',
     ''https://shop.example/policies/refund-policy/'',
     ''https://shop.example/policies/returns'',
     ''https://shop.example/policies/terms-of-service'',
     ''https://shop.example/policies/terms-of-service/''])"
proof -
  have base: "rstrip_slash ''https://shop.example/'' = ''https://shop.example''"
    by (simp add: rstrip_slash_def)
  have join: "example_urljoin (rstrip_slash ''https://shop.example/'') v
                = Some (''https://shop.example'' @ v) \<and> ''https://shop.example'' @ v \<noteq> []"
    if "v \<in> set (link_matches pats [(''Privacy'', ''/policies/privacy-policy'')])" for pats v
  proof -
    from that have "v = ''/policies/privacy-policy''"
      by (simp add: link_matches_def split: if_splits)
    then show ?thesis by (simp add: example_urljoin_def base)
  qed
  from find_policy_links_resolved [of "[(''Privacy'', ''/policies/privacy-policy'')]"
      example_urljoin "''https://shop.example/''" "\<lambda>v. ''https://shop.example'' @ v" policy_get]
    join
  have "find_policy_links example_urljoin policy_get ''https://shop.example/''
     [(''Privacy'', ''/policies/privacy-policy'')] =
      (Inr (map (\<lambda>(name, pats).
              (name, fst (resolved (\<lambda>v. ''https://shop.example'' @ v) policy_get
                 ''https://shop.example'' [(''Privacy'', ''/policies/privacy-policy'')] pats)))
         patterns),
       concat (map (\<lambda>(name, pats).
              snd (resolved (\<lambda>v. ''https://shop.example'' @ v) policy_get
                 ''https://shop.example'' [(''Privacy'', ''/policies/privacy-policy'')] pats))
         patterns))"
    unfolding base by blast
  also have "\<dots> =
   (Inr [(''privacy_policy'', Some ''https://shop.example/policies/privacy-policy''),
         (''refund_policy'', Some ''https://shop.example/policies/returns''),
         (''terms_of_service'', None)],
    [''https://shop.example/policies/refund-policy'',
     ''https://shop.example/policies/refund-policy/'',
     ''https://shop.example/policies/returns'',
     ''https://shop.example/policies/terms-of-service'',
     ''https://shop.example/policies/terms-of-service/''])"
    by (simp add: patterns_def resolved_def link_matches_def first_reachable_def probed_def
        safe_get_def policy_get_def)
  finally show ?thesis .
qed

text \<open>The claim as first stated covers every link table. On an href that contains a
  policy path and on which \<open>urljoin\<close> raises, the exception leaves the function: no
  mapping is returned.\<close>

theorem find_policy_links_raises_on_bad_href:
  "contains ''/policies/privacy-policy'' ''//[/policies/privacy-policy'' \<and>
   find_policy_links example_urljoin policy_get ''https://shop.example''
     [(''Privacy'', ''//[/policies/privacy-policy'')] = (Inl ValueError, [])"
  by (simp add: find_policy_links_def patterns_def resolve_category_def example_urljoin_def
      rstrip_slash_def)

subsection \<open>The Context Assembler\<close>
























text \<open>The pipeline returns a \<open>BrandContext\<close> when its four fallible steps succeed.\<close>

lemma assemble_returns:
  "fetch_products_json (requests_get rt) url = (Inr catalog, reqs) \<Longrightarrow>
   find_policy_links (urljoin rt) (requests_get rt) url
     (parsed_links (extract_links_and_text rt (resp_text r))) = (Inr pols, reqs') \<Longrightarrow>
   important_loop (urljoin rt) url (parsed_links (extract_links_and_text rt (resp_text r))) []
     = Inr important \<Longrightarrow>
   HttpUrl rt url = Some v \<Longrightarrow>
     \<exists>ctx. assemble rt url r = (Inr ctx, reqs @ reqs') \<and> website_url ctx = v \<and>
       products ctx = catalog \<and> policies ctx = pols \<and> important_links ctx = important \<and>
       contact ctx =
         \<lparr>emails = list_of_set rt (findall_emails rt (resp_text r)),
          phones = list_of_set rt (findall_phones rt (resp_text r)),
          addresses = []\<rparr>"
  by (simp add: assemble_def Let_def extract_links_and_text_def)


lemma assemble_contact:
  "fst (assemble rt url r) = Inr ctx \<Longrightarrow>
     contact ctx =
       \<lparr>emails = list_of_set rt (findall_emails rt (resp_text r)),
        phones = list_of_set rt (findall_phones rt (resp_text r)),
        addresses = []\<rparr>"
  by (auto simp: assemble_def Let_def extract_links_and_text_def
      split: prod.splits sum.splits option.splits)

lemma fetch_insights_missing:
  "payload ''website_url'' = None \<or> payload ''website_url'' = Some [] \<Longrightarrow>
     fetch_insights rt payload = (Inl missing_input, [])"
  by (auto simp: fetch_insights_def)

lemma fetch_insights_first_try:
  "payload ''website_url'' = Some u \<Longrightarrow> u \<noteq> [] \<Longrightarrow>
   safe_get (requests_get rt) (with_scheme u) = Some r \<Longrightarrow>
     fetch_insights rt payload =
       (fst (assemble rt (with_scheme u) r), with_scheme u # snd (assemble rt (with_scheme u) r))"
  by (simp add: fetch_insights_def fetch_homepage_def split: prod.splits)

lemma fetch_insights_retry:
  "payload ''website_url'' = Some u \<Longrightarrow> u \<noteq> [] \<Longrightarrow>
   safe_get (requests_get rt) (with_scheme u) = None \<Longrightarrow> retry_applies (with_scheme u) \<Longrightarrow>
   safe_get (requests_get rt) (www_variant (with_scheme u)) = Some r \<Longrightarrow>
     fetch_insights rt payload =
       (fst (assemble rt (www_variant (with_scheme u)) r),
        with_scheme u # www_variant (with_scheme u) #
          snd (assemble rt (www_variant (with_scheme u)) r))"
  by (simp add: fetch_insights_def fetch_homepage_def Let_def split: prod.splits)

lemma fetch_insights_retry_fails:
  "payload ''website_url'' = Some u \<Longrightarrow> u \<noteq> [] \<Longrightarrow>
   safe_get (requests_get rt) (with_scheme u) = None \<Longrightarrow> retry_applies (with_scheme u) \<Longrightarrow>
   safe_get (requests_get rt) (www_variant (with_scheme u)) = None \<Longrightarrow>
     fetch_insights rt payload =
       (Inl (unreachable (with_scheme u)), [with_scheme u, www_variant (with_scheme u)])"
  by (simp add: fetch_insights_def fetch_homepage_def Let_def)

lemma fetch_insights_no_retry:
  "payload ''website_url'' = Some u \<Longrightarrow> u \<noteq> [] \<Longrightarrow>
   safe_get (requests_get rt) (with_scheme u) = None \<Longrightarrow> \<not> retry_applies (with_scheme u) \<Longrightarrow>
     fetch_insights rt payload = (Inl (unreachable (with_scheme u)), [with_scheme u])"
  by (simp add: fetch_insights_def fetch_homepage_def Let_def)



lemma storefront_get:
  "safe_get (requests_get (storefront home)) u =
     (if u = home
      then Some \<lparr>status_code = 200, resp_text = ''<html></html>'', resp_json = None\<rparr>
      else None)"
  by (simp add: storefront_def safe_get_def)


text \<open>The pipeline on the storefront of the examples.\<close>

lemma find_policy_links_no_links:
  "\<exists>pols reqs. find_policy_links join_url get base_url [] = (Inr pols, reqs)"
proof -
  have step: "resolve_category join_url get (rstrip_slash base_url) [] pats =
      (Inr (fst (resolved (\<lambda>v. v) get (rstrip_slash base_url) [] pats)),
       snd (resolved (\<lambda>v. v) get (rstrip_slash base_url) [] pats))" for pats
    by (rule resolve_category_eq) (simp add: link_matches_Nil)
  show ?thesis
    by (simp add: find_policy_links_def patterns_def step)
qed

lemma storefront_assemble:
  "\<exists>ctx reqs. assemble (storefront home) home
           \<lparr>status_code = 200, resp_text = ''<html></html>'', resp_json = None\<rparr> = (Inr ctx, reqs) \<and>
         website_url ctx = home \<and> products ctx = [] \<and>
         contact ctx = \<lparr>emails = list_of_set (storefront home)
                           [''a@shop.example'', ''b@shop.example'', ''a@shop.example''],
                         phones = list_of_set (storefront home) [],
                         addresses = []\<rparr>"
proof -
  let ?st = "storefront home"
  let ?r = "\<lparr>status_code = 200, resp_text = ''<html></html>'', resp_json = None\<rparr>"
  have feed: "fetch_products_json (requests_get ?st) home
      = (Inr [], [rstrip_slash home @ ''/products.json''])"
    by (simp add: fetch_products_json_def storefront_get Let_def)
  have links: "parsed_links (extract_links_and_text ?st (resp_text ?r)) = []"
    by (simp add: extract_links_and_text_def Let_def storefront_def offline_def page_links_def
        anchors_def find_all_def)
  obtain pols reqs' where
    pol: "find_policy_links (urljoin ?st) (requests_get ?st) home [] = (Inr pols, reqs')"
    using find_policy_links_no_links by blast
  have url: "HttpUrl ?st home = Some home"
    by (simp add: storefront_def offline_def)
  have imp: "important_loop (urljoin ?st) home [] [] = Inr []" by simp
  have mails: "findall_emails ?st (resp_text ?r) =
      [''a@shop.example'', ''b@shop.example'', ''a@shop.example'']"
    and tels: "findall_phones ?st (resp_text ?r) = []"
    by (simp_all add: storefront_def offline_def)
  from assemble_returns [of ?st home "[]" _ ?r pols reqs' "[]" home] feed pol imp url links
  show ?thesis
    unfolding mails tels by auto
qed

text \<open>How a run ends: without a URL, with the homepage fetched at the first try, with
  the homepage fetched at the retry, or unreachable.\<close>

lemma fetch_insights_cases:
  "(payload ''website_url'' = None \<or> payload ''website_url'' = Some []) \<and>
     fetch_insights rt payload = (Inl missing_input, [])
   \<or> (\<exists>u r. payload ''website_url'' = Some u \<and> u \<noteq> [] \<and>
         safe_get (requests_get rt) (with_scheme u) = Some r \<and>
         fetch_insights rt payload =
           (fst (assemble rt (with_scheme u) r),
            with_scheme u # snd (assemble rt (with_scheme u) r)))
   \<or> (\<exists>u r. payload ''website_url'' = Some u \<and> u \<noteq> [] \<and>
         safe_get (requests_get rt) (with_scheme u) = None \<and>
         retry_applies (with_scheme u) \<and>
         safe_get (requests_get rt) (www_variant (with_scheme u)) = Some r \<and>
         fetch_insights rt payload =
           (fst (assemble rt (www_variant (with_scheme u)) r),
            with_scheme u # www_variant (with_scheme u) #
              snd (assemble rt (www_variant (with_scheme u)) r)))
   \<or> (\<exists>u. payload ''website_url'' = Some u \<and> u \<noteq> [] \<and>
         safe_get (requests_get rt) (with_scheme u) = None \<and>
         (retry_applies (with_scheme u) \<longrightarrow>
            safe_get (requests_get rt) (www_variant (with_scheme u)) = None) \<and>
         fst (fetch_insights rt payload) = Inl (unreachable (with_scheme u)) \<and>
         snd (fetch_insights rt payload) =
           (if retry_applies (with_scheme u)
            then [with_scheme u, www_variant (with_scheme u)] else [with_scheme u]))"
proof (cases "payload ''website_url''")
  case None
  then show ?thesis using fetch_insights_missing [of payload rt] by simp
next
  case (Some u)
  note present = this
  show ?thesis
  proof (cases "u = []")
    case True
    with present show ?thesis using fetch_insights_missing [of payload rt] by simp
  next
    case False
    note nonempty = this
    show ?thesis
    proof (cases "safe_get (requests_get rt) (with_scheme u)")
      case (Some r)
      with present nonempty fetch_insights_first_try [of payload u rt r]
      show ?thesis by simp
    next
      case None
      note first = this
      show ?thesis
      proof (cases "retry_applies (with_scheme u)")
        case False
        with first present nonempty fetch_insights_no_retry [of payload u rt]
        show ?thesis by simp
      next
        case True
        note applies = this
        show ?thesis
        proof (cases "safe_get (requests_get rt) (www_variant (with_scheme u))")
          case None
          with applies first present nonempty fetch_insights_retry_fails [of payload u rt]
          show ?thesis by simp
        next
          case (Some r)
          with applies first present nonempty fetch_insights_retry [of payload u rt r]
          show ?thesis by simp
        qed
      qed
    qed
  qed
qed







text \<open>The order of a set's iteration reaches the result only through the two lists of
  the contact.\<close>

lemma assemble_set_order:
  "assemble (rt\<lparr>list_of_set := f\<rparr>) url r =
     (case assemble rt url r of
        (Inl e, reqs) \<Rightarrow> (Inl e, reqs)
      | (Inr ctx, reqs) \<Rightarrow>
          (Inr (ctx\<lparr>contact :=
                  \<lparr>emails = f (findall_emails rt (resp_text r)),
                   phones = f (findall_phones rt (resp_text r)),
                   addresses = []\<rparr>\<rparr>), reqs))"
  by (simp add: assemble_def Let_def extract_links_and_text_def
      split: prod.splits sum.splits option.splits)

lemma assemble_up_to_set_order:
  assumes "\<And>xs. set (list_of_set rt xs) = set xs \<and> distinct (list_of_set rt xs)"
    and "\<And>xs. set (f xs) = set xs \<and> distinct (f xs)"
  shows "snd (assemble (rt\<lparr>list_of_set := f\<rparr>) url r) = snd (assemble rt url r) \<and>
         (case fst (assemble rt url r) of
            Inl e \<Rightarrow> fst (assemble (rt\<lparr>list_of_set := f\<rparr>) url r) = Inl e
          | Inr ctx \<Rightarrow>
              (\<exists>ctx'. fst (assemble (rt\<lparr>list_of_set := f\<rparr>) url r) = Inr ctx' \<and>
                 ctx'\<lparr>contact := contact ctx\<rparr> = ctx \<and>
                 set (emails (contact ctx')) = set (emails (contact ctx)) \<and>
                 distinct (emails (contact ctx')) \<and> distinct (emails (contact ctx)) \<and>
                 set (phones (contact ctx')) = set (phones (contact ctx)) \<and>
                 distinct (phones (contact ctx')) \<and> distinct (phones (contact ctx)) \<and>
                 addresses (contact ctx') = addresses (contact ctx)))"
proof (cases "assemble rt url r")
  case (Pair res reqs)
  show ?thesis
  proof (cases res)
    case (Inl e)
    with Pair show ?thesis by (simp add: assemble_set_order)
  next
    case (Inr ctx)
    with Pair have "fst (assemble rt url r) = Inr ctx" by simp
    then have c: "contact ctx =
        \<lparr>emails = list_of_set rt (findall_emails rt (resp_text r)),
         phones = list_of_set rt (findall_phones rt (resp_text r)),
         addresses = []\<rparr>"
      by (rule assemble_contact)
    from Pair Inr show ?thesis
      by (simp add: assemble_set_order c assms)
  qed
qed

text \<open>
  C7, as amended. Two runs on the same payload, against the same pages, feed and probe
  outcomes, that differ only in the order in which a set of strings is iterated (each
  run lists the distinct matches, in its own order) make the same requests; they fail
  with the same exception, or both return, and then the two results agree in every field
  but \<open>contact\<close>, whose \<open>emails\<close> and \<open>phones\<close> hold the same distinct matches,
  possibly in another order, and whose \<open>addresses\<close> agree.\<close>

theorem fetch_insights_up_to_set_order:
  assumes "\<And>xs. set (list_of_set rt xs) = set xs \<and> distinct (list_of_set rt xs)"
    and "\<And>xs. set (f xs) = set xs \<and> distinct (f xs)"
  shows "snd (fetch_insights (rt\<lparr>list_of_set := f\<rparr>) payload) = snd (fetch_insights rt payload) \<and>
         (case fst (fetch_insights rt payload) of
            Inl e \<Rightarrow> fst (fetch_insights (rt\<lparr>list_of_set := f\<rparr>) payload) = Inl e
          | Inr ctx \<Rightarrow>
              (\<exists>ctx'. fst (fetch_insights (rt\<lparr>list_of_set := f\<rparr>) payload) = Inr ctx' \<and>
                 ctx'\<lparr>contact := contact ctx\<rparr> = ctx \<and>
                 set (emails (contact ctx')) = set (emails (contact ctx)) \<and>
                 distinct (emails (contact ctx')) \<and> distinct (emails (contact ctx)) \<and>
                 set (phones (contact ctx')) = set (phones (contact ctx)) \<and>
                 distinct (phones (contact ctx')) \<and> distinct (phones (contact ctx)) \<and>
                 addresses (contact ctx') = addresses (contact ctx)))"
proof -
  let ?rt' = "rt\<lparr>list_of_set := f\<rparr>"
  have get: "requests_get ?rt' = requests_get rt" by simp
  note rel = assemble_up_to_set_order [OF assms]
  from fetch_insights_cases [of payload rt] consider
      (missing) "payload ''website_url'' = None \<or> payload ''website_url'' = Some []"
    | (first) u r where "payload ''website_url'' = Some u" "u \<noteq> []"
        "safe_get (requests_get rt) (with_scheme u) = Some r"
    | (retry) u r where "payload ''website_url'' = Some u" "u \<noteq> []"
        "safe_get (requests_get rt) (with_scheme u) = None" "retry_applies (with_scheme u)"
        "safe_get (requests_get rt) (www_variant (with_scheme u)) = Some r"
    | (fail_retry) u where "payload ''website_url'' = Some u" "u \<noteq> []"
        "safe_get (requests_get rt) (with_scheme u) = None" "retry_applies (with_scheme u)"
        "safe_get (requests_get rt) (www_variant (with_scheme u)) = None"
    | (fail) u where "payload ''website_url'' = Some u" "u \<noteq> []"
        "safe_get (requests_get rt) (with_scheme u) = None" "\<not> retry_applies (with_scheme u)"
    by (elim disjE exE conjE) blast+
  then show ?thesis
  proof cases
    case missing
    then show ?thesis
      using fetch_insights_missing [of payload rt] fetch_insights_missing [of payload ?rt']
      by simp
  next
    case first
    then have "fetch_insights rt payload =
        (fst (assemble rt (with_scheme u) r), with_scheme u # snd (assemble rt (with_scheme u) r))"
      and "fetch_insights ?rt' payload =
        (fst (assemble ?rt' (with_scheme u) r), with_scheme u # snd (assemble ?rt' (with_scheme u) r))"
      using fetch_insights_first_try [of payload u rt r]
        fetch_insights_first_try [of payload u ?rt' r] get
      by simp_all
    with rel [of "with_scheme u" r] show ?thesis
      by (cases "fst (assemble rt (with_scheme u) r)") simp_all
  next
    case retry
    then have "fetch_insights rt payload =
        (fst (assemble rt (www_variant (with_scheme u)) r),
         with_scheme u # www_variant (with_scheme u) #
           snd (assemble rt (www_variant (with_scheme u)) r))"
      and "fetch_insights ?rt' payload =
        (fst (assemble ?rt' (www_variant (with_scheme u)) r),
         with_scheme u # www_variant (with_scheme u) #
           snd (assemble ?rt' (www_variant (with_scheme u)) r))"
      using fetch_insights_retry [of payload u rt r]
        fetch_insights_retry [of payload u ?rt' r] get
      by simp_all
    with rel [of "www_variant (with_scheme u)" r] show ?thesis
      by (cases "fst (assemble rt (www_variant (with_scheme u)) r)") simp_all
  next
    case fail_retry
    then show ?thesis
      using fetch_insights_retry_fails [of payload u rt]
        fetch_insights_retry_fails [of payload u ?rt'] get
      by simp
  next
    case fail
    then show ?thesis
      using fetch_insights_no_retry [of payload u rt]
        fetch_insights_no_retry [of payload u ?rt'] get
      by simp
  qed
qed

text \<open>The same storefront, requested as \<open>shop.example\<close>.\<close>

lemma storefront_run:
  "\<exists>ctx reqs. fetch_insights (storefront ''https://shop.example'')
       [''website_url'' \<mapsto> ''shop.example''] = (Inr ctx, reqs) \<and>
     emails (contact ctx) = [''b@shop.example'', ''a@shop.example'']"
proof -
  let ?st = "storefront ''https://shop.example''"
  let ?r = "\<lparr>status_code = 200, resp_text = ''<html></html>'', resp_json = None\<rparr>"
  have ws: "with_scheme ''shop.example'' = ''https://shop.example''"
    by (simp add: with_scheme_def)
  have "fetch_insights ?st [''website_url'' \<mapsto> ''shop.example''] =
      (fst (assemble ?st ''https://shop.example'' ?r),
       ''https://shop.example'' # snd (assemble ?st ''https://shop.example'' ?r))"
    using fetch_insights_first_try [of "[''website_url'' \<mapsto> ''shop.example'']"
        "''shop.example''" ?st ?r]
    by (simp add: ws storefront_get)
  moreover have "list_of_set ?st [''a@shop.example'', ''b@shop.example'', ''a@shop.example'']
      = [''b@shop.example'', ''a@shop.example'']"
    by (simp add: storefront_def offline_def)
  ultimately show ?thesis
    using storefront_assemble [of "''https://shop.example''"] by auto
qed

text \<open>The storefront that answers at \<open>https://shop.example\<close>, whose homepage holds the
  matches \<open>a@shop.example\<close>, \<open>b@shop.example\<close>, \<open>a@shop.example\<close>, read by a run that
  iterates the set as \<open>remdups\<close> does and by one that iterates it in the reverse order.\<close>

theorem fetch_insights_up_to_set_order_witness:
  "\<exists>ctx ctx'.
     fst (fetch_insights (storefront ''https://shop.example'')
            [''website_url'' \<mapsto> ''shop.example'']) = Inr ctx \<and>
     fst (fetch_insights (storefront ''https://shop.example''\<lparr>list_of_set := (\<lambda>xs. rev (remdups xs))\<rparr>)
            [''website_url'' \<mapsto> ''shop.example'']) = Inr ctx' \<and>
     ctx'\<lparr>contact := contact ctx\<rparr> = ctx \<and>
     set (emails (contact ctx')) = set (emails (contact ctx)) \<and>
     emails (contact ctx) = [''b@shop.example'', ''a@shop.example'']"
proof -
  let ?st = "storefront ''https://shop.example''"
  let ?p = "[''website_url'' \<mapsto> ''shop.example'']"
  have h1: "set (list_of_set ?st xs) = set xs \<and> distinct (list_of_set ?st xs)" for xs
    by (simp add: storefront_def offline_def)
  have h2: "set (rev (remdups xs)) = set xs \<and> distinct (rev (remdups xs))" for xs :: "string list"
    by simp
  from storefront_run obtain ctx reqs where
    run: "fetch_insights ?st ?p = (Inr ctx, reqs)"
    and mails: "emails (contact ctx) = [''b@shop.example'', ''a@shop.example'']"
    by blast
  from fetch_insights_up_to_set_order [of ?st "\<lambda>xs. rev (remdups xs)" ?p] h1 h2 run
  obtain ctx' where
    "fst (fetch_insights (?st\<lparr>list_of_set := (\<lambda>xs. rev (remdups xs))\<rparr>) ?p) = Inr ctx'"
    "ctx'\<lparr>contact := contact ctx\<rparr> = ctx"
    "set (emails (contact ctx')) = set (emails (contact ctx))"
    by auto
  with run mails show ?thesis by auto
qed

text \<open>The claim as first stated has the two lists come out in the same order on every
  run. On that storefront the two runs return the two email matches in opposite
  orders, so their results differ.\<close>

theorem fetch_insights_depends_on_set_order:
  "(\<exists>ctx. fst (fetch_insights (storefront ''https://shop.example'')
              [''website_url'' \<mapsto> ''shop.example'']) = Inr ctx \<and>
          emails (contact ctx) = [''b@shop.example'', ''a@shop.example'']) \<and>
   (\<exists>ctx. fst (fetch_insights
               (storefront ''https://shop.example''\<lparr>list_of_set := (\<lambda>xs. rev (remdups xs))\<rparr>)
               [''website_url'' \<mapsto> ''shop.example'']) = Inr ctx \<and>
          emails (contact ctx) = [''a@shop.example'', ''b@shop.example'']) \<and>
   fst (fetch_insights (storefront ''https://shop.example'')
          [''website_url'' \<mapsto> ''shop.example'']) \<noteq>
   fst (fetch_insights
          (storefront ''https://shop.example''\<lparr>list_of_set := (\<lambda>xs. rev (remdups xs))\<rparr>)
          [''website_url'' \<mapsto> ''shop.example''])"
proof -
  let ?st = "storefront ''https://shop.example''"
  let ?st' = "?st\<lparr>list_of_set := (\<lambda>xs. rev (remdups xs))\<rparr>"
  let ?p = "[''website_url'' \<mapsto> ''shop.example'']"
  let ?r = "\<lparr>status_code = 200, resp_text = ''<html></html>'', resp_json = None\<rparr>"
  from storefront_run obtain ctx reqs where
    run: "fetch_insights ?st ?p = (Inr ctx, reqs)"
    and mails: "emails (contact ctx) = [''b@shop.example'', ''a@shop.example'']"
    by blast
  have ws: "with_scheme ''shop.example'' = ''https://shop.example''"
    by (simp add: with_scheme_def)
  have get: "requests_get ?st' = requests_get ?st" by simp
  have first: "fetch_insights ?st ?p =
      (fst (assemble ?st ''https://shop.example'' ?r),
       ''https://shop.example'' # snd (assemble ?st ''https://shop.example'' ?r))"
    using fetch_insights_first_try [of ?p "''shop.example''" ?st ?r]
    by (simp add: ws storefront_get)
  have first': "fetch_insights ?st' ?p =
      (fst (assemble ?st' ''https://shop.example'' ?r),
       ''https://shop.example'' # snd (assemble ?st' ''https://shop.example'' ?r))"
    using fetch_insights_first_try [of ?p "''shop.example''" ?st' ?r] get
    by (simp add: ws storefront_get)
  from run first have a: "fst (assemble ?st ''https://shop.example'' ?r) = Inr ctx"
    by simp
  have found: "findall_emails ?st (resp_text ?r) =
      [''a@shop.example'', ''b@shop.example'', ''a@shop.example'']"
    by (simp add: storefront_def offline_def)
  from a have "fst (assemble ?st' ''https://shop.example'' ?r) =
      Inr (ctx\<lparr>contact :=
             \<lparr>emails = rev (remdups (findall_emails ?st (resp_text ?r))),
              phones = rev (remdups (findall_phones ?st (resp_text ?r))),
              addresses = []\<rparr>\<rparr>)"
    by (cases "assemble ?st ''https://shop.example'' ?r")
      (simp add: assemble_set_order del: resp_text_def)
  with first' have b: "\<exists>ctx'. fst (fetch_insights ?st' ?p) = Inr ctx' \<and>
      emails (contact ctx') = [''a@shop.example'', ''b@shop.example'']"
    unfolding found by simp
  from run mails have c: "\<exists>ctx. fst (fetch_insights ?st ?p) = Inr ctx \<and>
      emails (contact ctx) = [''b@shop.example'', ''a@shop.example'']"
    by simp
  from b c have "fst (fetch_insights ?st ?p) \<noteq> fst (fetch_insights ?st' ?p)"
    by auto
  with b c show ?thesis by blast
qed

end
